theory Spec2Isabelle
  imports Complex_Main "HOL-Library.Multiset"
begin


section \<open>Python values and errors\<close>

text \<open>
  The agent is Python. Every exception the modelled code can raise is a value of
  \<open>py_error\<close>; a call that may raise returns \<open>py_error + 'a\<close> with \<open>Inl\<close> the
  exception. Telemetry values are the emulator's RAM integers (\<open>int\<close>); rewards,
  action-values, losses and the exploration rate are Python/numpy floats, idealised here
  as \<open>real\<close> (rounding is not modelled).
\<close>

datatype py_error =
  KeyError | IndexError | ValueError | AttributeError | ZeroDivisionError | TypeError

definition bindE :: "'e + 'a \<Rightarrow> ('a \<Rightarrow> 'e + 'b) \<Rightarrow> 'e + 'b" where
  "bindE r f = (case r of Inl e \<Rightarrow> Inl e | Inr x \<Rightarrow> f x)"

text \<open>\<open>d[k]\<close> on a dict, the dict written as an association list.\<close>

definition dict_getitem :: "('k \<times> 'v) list \<Rightarrow> 'k \<Rightarrow> py_error + 'v" where
  "dict_getitem d k = (case map_of d k of None \<Rightarrow> Inl KeyError | Some v \<Rightarrow> Inr v)"

text \<open>\<open>xs[i] = v\<close> on a list or a one-dimensional array: a negative index counts from the end.\<close>

definition list_setitem :: "'a list \<Rightarrow> int \<Rightarrow> 'a \<Rightarrow> py_error + 'a list" where
  "list_setitem xs i v =
     (let n = int (length xs); j = (if i < 0 then i + n else i)
      in if 0 \<le> j \<and> j < n then Inr (xs[nat j := v]) else Inl IndexError)"

text \<open>\<open>numpy.reshape(xs, [1, n])\<close>: the single row of the result, or ValueError when the
  sizes differ.\<close>

definition numpy_reshape :: "'a list \<Rightarrow> nat \<Rightarrow> py_error + 'a list" where
  "numpy_reshape xs n = (if length xs = n then Inr xs else Inl ValueError)"

text \<open>\<open>numpy.amax\<close> and \<open>numpy.argmax\<close> of a one-dimensional array; both raise ValueError on
  an empty one. \<open>argmax\<close> scans left to right and moves only on a strictly larger value.\<close>

definition numpy_amax :: "real list \<Rightarrow> py_error + real" where
  "numpy_amax xs = (case xs of [] \<Rightarrow> Inl ValueError | x # rest \<Rightarrow> Inr (fold max rest x))"

fun argmax_scan :: "real list \<Rightarrow> nat \<Rightarrow> real \<Rightarrow> nat \<Rightarrow> nat" where
  "argmax_scan [] i best bi = bi"
| "argmax_scan (x # xs) i best bi =
     (if best < x then argmax_scan xs (Suc i) x i else argmax_scan xs (Suc i) best bi)"

definition numpy_argmax :: "real list \<Rightarrow> py_error + nat" where
  "numpy_argmax xs = (case xs of [] \<Rightarrow> Inl ValueError | x # rest \<Rightarrow> Inr (argmax_scan rest 1 x 0))"

section \<open>Feature encoder (DeepQAgent.prepareNetworkInputs)\<close>

type_synonym telemetry = "(string \<times> int) list"

definition stateIndices :: "(int \<times> int) list" where
  "stateIndices = [(512, 0), (514, 1), (516, 2), (518, 3), (520, 4), (522, 5), (524, 6),
     (526, 7), (532, 8)]"

definition doneKeys :: "int list" where
  "doneKeys = [0, 528, 530, 1024, 1026, 1028, 1030, 1032]"

text \<open>The two one-hot blocks of the encoder are the same two source lines, once for
  \<open>enemy_status\<close> and once for \<open>status\<close>:
  \<^verbatim>\<open>oneHot = [0] * len(stateIndices.keys())\<close>,
  \<^verbatim>\<open>if code not in doneKeys: oneHot[stateIndices[code]] = 1\<close>.\<close>

definition oneHotState :: "int \<Rightarrow> py_error + int list" where
  "oneHotState code =
     (let oneHot = replicate (length (map fst stateIndices)) 0
      in if code \<notin> set doneKeys
         then bindE (dict_getitem stateIndices code) (\<lambda>i. list_setitem oneHot i 1)
         else Inr oneHot)"

definition prepareNetworkInputs :: "nat \<Rightarrow> telemetry \<Rightarrow> py_error + int list" where
  "prepareNetworkInputs inputSize step =
     bindE (dict_getitem step ''enemy_health'') (\<lambda>enemy_health.
     bindE (dict_getitem step ''enemy_x_position'') (\<lambda>enemy_x.
     bindE (dict_getitem step ''enemy_y_position'') (\<lambda>enemy_y.
     bindE (dict_getitem step ''enemy_status'') (\<lambda>enemy_status.
     bindE (oneHotState enemy_status) (\<lambda>oneHotEnemyState.
     bindE (dict_getitem step ''enemy_character'') (\<lambda>enemy_character.
     bindE (list_setitem (replicate 8 0) enemy_character 1) (\<lambda>oneHotEnemyChar.
     bindE (dict_getitem step ''health'') (\<lambda>health.
     bindE (dict_getitem step ''x_position'') (\<lambda>x_position.
     bindE (dict_getitem step ''y_position'') (\<lambda>y_position.
     bindE (dict_getitem step ''status'') (\<lambda>status.
     bindE (oneHotState status) (\<lambda>oneHotPlayerState.
     numpy_reshape
       ([enemy_health, enemy_x, enemy_y] @ oneHotEnemyState @ oneHotEnemyChar
          @ [health, x_position, y_position] @ oneHotPlayerState)
       inputSize))))))))))))"

section \<open>The approximator and the loss history\<close>

text \<open>
  The network is the external Keras model, used through two calls only. \<open>predict net m x\<close> is
  \<^verbatim>\<open>model.predict(x)[0]\<close>, the row of action-values for the single input row \<open>x\<close>;
  \<open>fit net m x y\<close> is one call \<^verbatim>\<open>model.fit(x, y, epochs=1)\<close>, which updates the model in
  place and reports the loss of that step to its callbacks.
\<close>

record 'm network =
  predict :: "'m \<Rightarrow> int list \<Rightarrow> real list"
  fit :: "'m \<Rightarrow> int list \<Rightarrow> real list \<Rightarrow> 'm \<times> real"

text \<open>
  Modelled from the spec: the \<open>LossHistory\<close> callback, whose module is not among the
  sources. The spec's words: each fitting step's scalar loss is appended to a per-episode
  loss history; cleared at the start of each training pass.
\<close>

definition losses_clear :: "real list \<Rightarrow> real list" where
  "losses_clear losses = []"

definition on_fit_end :: "real list \<Rightarrow> real \<Rightarrow> real list" where
  "on_fit_end losses loss = losses @ [loss]"

section \<open>Agent state (Agent and DeepQAgent attributes)\<close>

text \<open>A recorded step is the 7-tuple of \<open>recordStep\<close>; the projections carry the names of
  the index constants of class \<open>Agent\<close>.\<close>

type_synonym 'o step = "'o \<times> telemetry \<times> int \<times> real \<times> 'o \<times> telemetry \<times> bool"

definition STATE_INDEX :: "'o step \<Rightarrow> telemetry" where
  "STATE_INDEX s = (case s of (obs, st, a, r, obs', st', d) \<Rightarrow> st)"

definition ACTION_INDEX :: "'o step \<Rightarrow> int" where
  "ACTION_INDEX s = (case s of (obs, st, a, r, obs', st', d) \<Rightarrow> a)"

definition REWARD_INDEX :: "'o step \<Rightarrow> real" where
  "REWARD_INDEX s = (case s of (obs, st, a, r, obs', st', d) \<Rightarrow> r)"

definition NEXT_STATE_INDEX :: "'o step \<Rightarrow> telemetry" where
  "NEXT_STATE_INDEX s = (case s of (obs, st, a, r, obs', st', d) \<Rightarrow> st')"

definition DONE_INDEX :: "'o step \<Rightarrow> bool" where
  "DONE_INDEX s = (case s of (obs, st, a, r, obs', st', d) \<Rightarrow> d)"

definition MAX_DATA_LENGTH :: nat where
  "MAX_DATA_LENGTH = 50000"

definition EPSILON_MIN :: real where
  "EPSILON_MIN = 1 / 10"

definition DEFAULT_EPSILON_DECAY :: real where
  "DEFAULT_EPSILON_DECAY = 999 / 1000"

definition DEFAULT_DISCOUNT_RATE :: real where
  "DEFAULT_DISCOUNT_RATE = 98 / 100"

definition DEFAULT_LEARNING_RATE :: real where
  "DEFAULT_LEARNING_RATE = 1 / 10000"

text \<open>The attributes of an agent object. \<open>lastAction\<close> is \<open>None\<close> while the attribute has
  never been assigned; \<open>memory\<close> is the contents of the bounded deque, oldest first.\<close>

record ('o, 'm) agent =
  name :: string
  stateSize :: nat
  actionSize :: nat
  gamma :: real
  epsilon :: real
  epsilonDecay :: real
  learningRate :: real
  lossHistory :: "real list"
  memory :: "'o step list"
  lastAction :: "int option"
  model :: 'm

text \<open>\<open>deque.append\<close> on a deque created with \<open>maxlen\<close>: the item is added on the right and,
  when the deque is then longer than \<open>maxlen\<close>, one item is dropped on the left.\<close>

definition deque_append :: "nat \<Rightarrow> 'a list \<Rightarrow> 'a \<Rightarrow> 'a list" where
  "deque_append maxlen xs x = (let ys = xs @ [x] in if maxlen < length ys then tl ys else ys)"

definition prepareForNextFight :: "('o, 'm) agent \<Rightarrow> ('o, 'm) agent" where
  "prepareForNextFight ag = ag\<lparr>memory := []\<rparr>"

text \<open>
  Construction, \<open>DeepQAgent.__init__\<close> followed by \<open>Agent.__init__\<close>: the attributes assigned
  there and no other. \<open>m0\<close> is the model that \<open>initializeNetwork\<close> (and \<open>loadModel\<close>, when
  \<open>load\<close> is set) leaves in \<open>self.model\<close>. Neither constructor assigns \<open>lastAction\<close>. (The
  subclass passes \<open>game\<close> and \<open>render\<close> to a base constructor that, in the sources, takes
  neither; the environment binding they belong to is not modelled.)
\<close>

definition DeepQAgent_init ::
    "nat \<Rightarrow> nat \<Rightarrow> bool \<Rightarrow> real \<Rightarrow> string option \<Rightarrow> 'm \<Rightarrow> ('o, 'm) agent" where
  "DeepQAgent_init inputSize actions load eps nm m0 =
     prepareForNextFight
       \<lparr> name = (case nm of None \<Rightarrow> ''DeepQAgent'' | Some n \<Rightarrow> n),
         stateSize = inputSize,
         actionSize = actions,
         gamma = DEFAULT_DISCOUNT_RATE,
         epsilon = (if load then EPSILON_MIN else eps),
         epsilonDecay = DEFAULT_EPSILON_DECAY,
         learningRate = DEFAULT_LEARNING_RATE,
         lossHistory = [],
         memory = [],
         lastAction = None,
         model = m0 \<rparr>"

section \<open>Recording steps (Agent.recordStep)\<close>

text \<open>Reading \<open>self.lastAction\<close> raises AttributeError while the attribute is unset.\<close>

definition recordStep ::
    "('o, 'm) agent \<Rightarrow> 'o \<Rightarrow> telemetry \<Rightarrow> real \<Rightarrow> 'o \<Rightarrow> telemetry \<Rightarrow> bool
      \<Rightarrow> py_error + ('o, 'm) agent" where
  "recordStep ag observation state reward nextObservation nextState isDone =
     (case lastAction ag of
        None \<Rightarrow> Inl AttributeError
      | Some a \<Rightarrow>
          Inr (ag\<lparr>memory := deque_append MAX_DATA_LENGTH (memory ag)
                 (observation, state, a, reward, nextObservation, nextState, isDone)\<rparr>))"

text \<open>A run of \<open>recordStep\<close> calls, one per decision frame, as the play loop issues them;
  each frame is given as (observation, state, reward, nextObservation, nextState, done).\<close>

fun recordSteps ::
    "('o, 'm) agent \<Rightarrow> ('o \<times> telemetry \<times> real \<times> 'o \<times> telemetry \<times> bool) list
      \<Rightarrow> py_error + ('o, 'm) agent" where
  "recordSteps ag [] = Inr ag"
| "recordSteps ag ((obs, st, r, obs', st', d) # frames) =
     bindE (recordStep ag obs st r obs' st' d) (\<lambda>ag'. recordSteps ag' frames)"

section \<open>Action selection (Agent.getMove and DeepQAgent.getMove)\<close>

text \<open>
  The base agent samples the action space, stores the sample in \<open>lastAction\<close> and returns
  \<open>convertMoveToFrameInputs(move)\<close>, whose body is \<open>pass\<close>: the returned value is Python's
  \<open>None\<close>. \<open>sample\<close> is the value that \<open>action_space.sample()\<close> returned.
\<close>

definition Agent_getMove :: "('o, 'm) agent \<Rightarrow> int \<Rightarrow> ('o, 'm) agent \<times> int option" where
  "Agent_getMove ag sample = (let move = sample in (ag\<lparr>lastAction := Some move\<rparr>, None))"

text \<open>
  \<open>Agent.getRandomMove(self, action_space)\<close> returns \<open>action_space.sample()\<close>. Its argument
  is given here as the value that the sample call returns, and as \<open>None\<close> for a call that
  passes no argument: the parameter has no default, so that call raises TypeError.
\<close>

definition getRandomMove :: "int option \<Rightarrow> py_error + int" where
  "getRandomMove action_space =
     (case action_space of None \<Rightarrow> Inl TypeError | Some sample \<Rightarrow> Inr sample)"

text \<open>\<open>isActionableState\<close> first asks the environment for the meaning of action 0 and drops
  the answer; that call is external and is not modelled.\<close>

definition isActionableState :: "telemetry \<Rightarrow> py_error + bool" where
  "isActionableState info =
     bindE (dict_getitem info ''round_timer'') (\<lambda>round_timer.
       if round_timer = 39208 then Inr False else Inr True)"

text \<open>
  \<open>DeepQAgent.getMove\<close>. The constant \<open>Agent.NO_MOVE\<close> is not defined in the sources and is
  the parameter \<open>NO_MOVE\<close>. The exploration branch calls \<open>self.getRandomMove()\<close> with no
  argument, against the base class method above. \<open>rand\<close> is the value drawn by
  \<open>numpy.random.rand()\<close>, a float of the interval [0, 1). The result is the agent (no
  attribute is assigned), the move, and the inputs on which \<open>model.predict\<close> was called,
  in order.
\<close>

definition DeepQAgent_getMove ::
    "'m network \<Rightarrow> int \<Rightarrow> ('o, 'm) agent \<Rightarrow> telemetry \<Rightarrow> real
      \<Rightarrow> py_error + (('o, 'm) agent \<times> int \<times> int list list)" where
  "DeepQAgent_getMove net NO_MOVE ag info rand =
     bindE (isActionableState info) (\<lambda>actionable.
       if \<not> actionable then Inr (ag, NO_MOVE, [])
       else if rand \<le> epsilon ag then bindE (getRandomMove None) (\<lambda>move. Inr (ag, move, []))
       else
         bindE (prepareNetworkInputs (stateSize ag) info) (\<lambda>stateData.
         bindE (numpy_argmax (predict net (model ag) stateData)) (\<lambda>move.
           Inr (ag, int move, [stateData]))))"

section \<open>Training (DeepQAgent.prepareMemoryForTraining and DeepQAgent.trainNetwork)\<close>

text \<open>A prepared training row is the list \<open>[features, action, reward, done, next features]\<close>;
  a fit call is remembered as the pair of its input row and its target row.\<close>

type_synonym sample = "int list \<times> int \<times> real \<times> bool \<times> int list"

type_synonym fit_call = "int list \<times> real list"

text \<open>\<open>prepareMemoryForTraining\<close> walks \<open>self.memory\<close> (its argument is not used) and
  encodes both states of every step; the first encoder failure ends it.\<close>

fun prepareSteps :: "nat \<Rightarrow> 'o step list \<Rightarrow> py_error + sample list" where
  "prepareSteps n [] = Inr []"
| "prepareSteps n (step # rest) =
     bindE (prepareNetworkInputs n (STATE_INDEX step)) (\<lambda>features.
     bindE (prepareNetworkInputs n (NEXT_STATE_INDEX step)) (\<lambda>nextFeatures.
     bindE (prepareSteps n rest) (\<lambda>data.
       Inr ((features, ACTION_INDEX step, REWARD_INDEX step, DONE_INDEX step, nextFeatures)
            # data))))"

definition prepareMemoryForTraining :: "('o, 'm) agent \<Rightarrow> py_error + sample list" where
  "prepareMemoryForTraining ag = prepareSteps (stateSize ag) (memory ag)"

text \<open>
  \<open>random.sample(population, k)\<close> of the standard library, sampling without replacement:
  ValueError when \<open>k\<close> exceeds the size of the population; else \<open>k\<close> rounds over a copy of
  the population, the pool. Round \<open>i\<close> draws an index \<open>j\<close> below the number of elements still
  live in the pool, takes \<open>pool[j]\<close> as the next element of the result and moves the last
  live element into position \<open>j\<close>. (The library takes this branch whenever \<open>k\<close> is the size
  of the population.) The generator is the parameter \<open>rng\<close>: \<open>rng i\<close> is the raw number of
  round \<open>i\<close>, reduced to the range of \<open>randbelow\<close>.
\<close>

fun pool_loop :: "(nat \<Rightarrow> nat) \<Rightarrow> nat \<Rightarrow> 'a list \<Rightarrow> nat \<Rightarrow> 'a list" where
  "pool_loop rng i pool 0 = []"
| "pool_loop rng i pool (Suc rounds) =
     (let live = length pool - i; j = rng i mod live
      in pool ! j # pool_loop rng (Suc i) (pool[j := pool ! (live - 1)]) rounds)"

definition random_sample :: "(nat \<Rightarrow> nat) \<Rightarrow> 'a list \<Rightarrow> nat \<Rightarrow> py_error + 'a list" where
  "random_sample rng population k =
     (if k \<le> length population then Inr (pool_loop rng 0 population k) else Inl ValueError)"

text \<open>The body of the training loop for one row: the state threaded through the loop is
  the model together with the loss history that the fit callback extends.\<close>

definition trainStep ::
    "'m network \<Rightarrow> real \<Rightarrow> nat \<Rightarrow> 'm \<times> real list \<Rightarrow> sample
      \<Rightarrow> py_error + (('m \<times> real list) \<times> fit_call)" where
  "trainStep net g nActions st row =
     (case st of (m, losses) \<Rightarrow>
      case row of (state, action, reward, isDone, next_state) \<Rightarrow>
        let modelOutput = predict net m state in
        bindE (if \<not> isDone
               then bindE (numpy_amax (predict net m next_state)) (\<lambda>best. Inr (reward + g * best))
               else Inr reward) (\<lambda>reward'.
        bindE (list_setitem modelOutput action reward') (\<lambda>modelOutput'.
        bindE (numpy_reshape modelOutput' nActions) (\<lambda>target.
          case fit net m state target of
            (m', loss) \<Rightarrow> Inr ((m', on_fit_end losses loss), (state, target))))))"

fun trainLoop ::
    "'m network \<Rightarrow> real \<Rightarrow> nat \<Rightarrow> 'm \<times> real list \<Rightarrow> sample list
      \<Rightarrow> py_error + (('m \<times> real list) \<times> fit_call list)" where
  "trainLoop net g nActions st [] = Inr (st, [])"
| "trainLoop net g nActions st (row # rest) =
     bindE (trainStep net g nActions st row) (\<lambda>(st', call).
     bindE (trainLoop net g nActions st' rest) (\<lambda>(st'', calls).
       Inr (st'', call # calls)))"

text \<open>\<open>trainNetwork(data, model)\<close>: returns the agent with its loss history and epsilon
  updated, the trained model, and the fit calls of the pass in order.\<close>

definition trainNetwork ::
    "'m network \<Rightarrow> ('o, 'm) agent \<Rightarrow> (nat \<Rightarrow> nat) \<Rightarrow> sample list \<Rightarrow> 'm
      \<Rightarrow> py_error + (('o, 'm) agent \<times> 'm \<times> fit_call list)" where
  "trainNetwork net ag rng data m =
     bindE (random_sample rng data (length data)) (\<lambda>minibatch.
       let cleared = losses_clear (lossHistory ag)
       in bindE (trainLoop net (gamma ag) (actionSize ag) (m, cleared) minibatch)
            (\<lambda>((m', losses), calls).
              Inr (ag\<lparr>lossHistory := losses,
                       epsilon := (if EPSILON_MIN < epsilon ag
                                   then epsilon ag * epsilonDecay ag else epsilon ag)\<rparr>,
                   m', calls)))"

text \<open>Successive training passes of one agent, each on its own data and with its own
  generator, the trained model kept between passes.\<close>

fun trainPasses ::
    "'m network \<Rightarrow> ('o, 'm) agent \<Rightarrow> ((nat \<Rightarrow> nat) \<times> sample list) list
      \<Rightarrow> py_error + ('o, 'm) agent" where
  "trainPasses net ag [] = Inr ag"
| "trainPasses net ag ((rng, data) # rest) =
     bindE (trainNetwork net ag rng data (model ag)) (\<lambda>(ag', m', calls).
       trainPasses net (ag'\<lparr>model := m'\<rparr>) rest)"

section \<open>Persistence and the review cycle (Agent.saveModel and Agent.reviewFight)\<close>

text \<open>The files the agent writes: saved weights by path, and log files by path, a log file
  being the list of the values written, one per line.\<close>

record 'm disk =
  weights :: "string \<Rightarrow> 'm option"
  logs :: "string \<Rightarrow> real list"

definition DEFAULT_MODELS_DIR_PATH :: string where
  "DEFAULT_MODELS_DIR_PATH = ''../models''"

definition DEFAULT_LOGS_DIR_PATH :: string where
  "DEFAULT_LOGS_DIR_PATH = ''../logs''"

definition getModelName :: "('o, 'm) agent \<Rightarrow> string" where
  "getModelName ag = name ag @ ''Model''"

definition getLogsName :: "('o, 'm) agent \<Rightarrow> string" where
  "getLogsName ag = name ag @ ''Logs''"

definition path_join :: "string \<Rightarrow> string \<Rightarrow> string" where
  "path_join dir file = dir @ ''/'' @ file"

text \<open>\<open>saveModel\<close> writes the weights first and then the mean loss; the division
  \<open>sum(losses) / len(losses)\<close> raises ZeroDivisionError on an empty loss history, after the
  weights were written and before anything is written to the log.\<close>

definition saveModel :: "('o, 'm) agent \<Rightarrow> 'm disk \<Rightarrow> py_error + 'm disk" where
  "saveModel ag d =
     (let d1 = d\<lparr>weights := (weights d)
                 (path_join DEFAULT_MODELS_DIR_PATH (getModelName ag) := Some (model ag))\<rparr>;
          logPath = path_join DEFAULT_LOGS_DIR_PATH (getLogsName ag);
          losses = lossHistory ag
      in if length losses = 0 then Inl ZeroDivisionError
         else Inr (d1\<lparr>logs := (logs d1)
                     (logPath := logs d1 logPath @ [sum_list losses / real (length losses)])\<rparr>))"

definition reviewFight ::
    "'m network \<Rightarrow> ('o, 'm) agent \<Rightarrow> (nat \<Rightarrow> nat) \<Rightarrow> 'm disk
      \<Rightarrow> py_error + (('o, 'm) agent \<times> 'm disk \<times> fit_call list)" where
  "reviewFight net ag rng d =
     bindE (prepareMemoryForTraining ag) (\<lambda>data.
     bindE (trainNetwork net ag rng data (model ag)) (\<lambda>(ag1, m', calls).
       let ag2 = ag1\<lparr>model := m'\<rparr> in
       bindE (saveModel ag2 d) (\<lambda>d'.
         Inr (prepareForNextFight ag2, d', calls))))"

section \<open>Notions used to state the claims\<close>

subsection \<open>The layout of a feature vector\<close>

text \<open>\<open>one_hot n k\<close> is the row of \<open>n\<close> zeros with a single 1 at index \<open>k\<close>, and the all-zero
  row for \<open>None\<close>; \<open>status_one_hot\<close> is the 9-element one-hot of a status code under the
  table \<open>stateIndices\<close>, all-zero for a code that is not a key of the table.\<close>

definition one_hot :: "nat \<Rightarrow> nat option \<Rightarrow> int list" where
  "one_hot n k = map (\<lambda>j. if Some j = k then 1 else 0) [0..<n]"

definition field :: "telemetry \<Rightarrow> string \<Rightarrow> int" where
  "field step k = the (map_of step k)"

definition status_one_hot :: "int \<Rightarrow> int list" where
  "status_one_hot code = one_hot 9 (map_option nat (map_of stateIndices code))"

text \<open>The composition the feature vector is specified to have, in order.\<close>

definition feature_layout :: "telemetry \<Rightarrow> int list" where
  "feature_layout step =
     [field step ''enemy_health'', field step ''enemy_x_position'', field step ''enemy_y_position'']
     @ status_one_hot (field step ''enemy_status'')
     @ one_hot 8 (Some (nat (field step ''enemy_character'' mod 8)))
     @ [field step ''health'', field step ''x_position'', field step ''y_position'']
     @ status_one_hot (field step ''status'')"

text \<open>A valid state mapping: the nine fields the encoder reads are present, both status
  codes are keys of \<open>stateIndices\<close> or members of \<open>doneKeys\<close>, and the enemy character is an
  index that a Python list of 8 elements accepts.\<close>

definition required_fields :: "string list" where
  "required_fields = [''enemy_health'', ''enemy_x_position'', ''enemy_y_position'',
     ''enemy_status'', ''enemy_character'', ''health'', ''x_position'', ''y_position'', ''status'']"

definition encodable_status :: "int \<Rightarrow> bool" where
  "encodable_status code \<longleftrightarrow> map_of stateIndices code \<noteq> None \<or> code \<in> set doneKeys"

definition valid_state :: "telemetry \<Rightarrow> bool" where
  "valid_state step \<longleftrightarrow>
     list_all (\<lambda>k. map_of step k \<noteq> None) required_fields \<and>
     encodable_status (field step ''enemy_status'') \<and>
     encodable_status (field step ''status'') \<and>
     - 8 \<le> field step ''enemy_character'' \<and> field step ''enemy_character'' < 8"

subsection \<open>Recorded steps and training rows\<close>

text \<open>The step that \<open>recordStep\<close> stores for a frame when \<open>lastAction\<close> holds \<open>a\<close>, and the
  training row that \<open>prepareMemoryForTraining\<close> is to make of a stored step.\<close>

definition with_action ::
    "int \<Rightarrow> 'o \<times> telemetry \<times> real \<times> 'o \<times> telemetry \<times> bool \<Rightarrow> 'o step" where
  "with_action a frame = (case frame of (obs, st, r, obs', st', d) \<Rightarrow> (obs, st, a, r, obs', st', d))"

definition encoded_row :: "'o step \<Rightarrow> sample" where
  "encoded_row step =
     (feature_layout (STATE_INDEX step), ACTION_INDEX step, REWARD_INDEX step, DONE_INDEX step,
      feature_layout (NEXT_STATE_INDEX step))"

subsection \<open>The target of the temporal-difference update\<close>

text \<open>An action is a valid index into a row of \<open>n\<close> action-values when Python accepts it,
  negative indices included; \<open>action_index\<close> is the position it denotes.\<close>

definition valid_action :: "nat \<Rightarrow> int \<Rightarrow> bool" where
  "valid_action n a \<longleftrightarrow> - int n \<le> a \<and> a < int n"

text \<open>A buffered step is valid for \<open>n\<close> actions when both of its states are valid state
  mappings and its action is a valid index.\<close>

definition valid_step :: "nat \<Rightarrow> 'o step \<Rightarrow> bool" where
  "valid_step n step \<longleftrightarrow>
     valid_state (STATE_INDEX step) \<and> valid_state (NEXT_STATE_INDEX step) \<and>
     valid_action n (ACTION_INDEX step)"

definition action_index :: "nat \<Rightarrow> int \<Rightarrow> nat" where
  "action_index n a = nat (a mod int n)"

text \<open>The specification's target for a row under the model \<open>m\<close>: the reward when the row is
  terminal, else the reward plus the discounted maximum of the predictions for the next
  state; and the fit call the specification asks for: the predictions for the state with
  the action's entry overwritten by the target.\<close>

definition spec_target :: "'m network \<Rightarrow> real \<Rightarrow> 'm \<Rightarrow> sample \<Rightarrow> real" where
  "spec_target net g m row =
     (case row of (s, a, r, isDone, s') \<Rightarrow>
        if isDone then r else r + g * Max (set (predict net m s')))"

definition expected_call :: "'m network \<Rightarrow> real \<Rightarrow> nat \<Rightarrow> 'm \<Rightarrow> sample \<Rightarrow> fit_call" where
  "expected_call net g n m row =
     (case row of (s, a, r, isDone, s') \<Rightarrow>
        (s, (predict net m s)[action_index n a := spec_target net g m row]))"

text \<open>The model that a sequence of fit calls leaves, starting from \<open>m\<close>.\<close>

fun replay :: "'m network \<Rightarrow> 'm \<Rightarrow> fit_call list \<Rightarrow> 'm" where
  "replay net m [] = m"
| "replay net m ((x, y) # calls) = replay net (fst (fit net m x y)) calls"

section \<open>Concrete inputs\<close>

text \<open>Telemetry of four frames: both fighters in a known status; the round over (both
  status codes in \<open>doneKeys\<close>); a player status, 534, that is in neither list; and the
  lockout value in \<open>round_timer\<close>.\<close>

definition standing_state :: telemetry where
  "standing_state = [(''enemy_health'', 176), (''enemy_x_position'', 300), (''enemy_y_position'', 192),
     (''enemy_status'', 514), (''enemy_character'', 3), (''health'', 150), (''x_position'', 205),
     (''y_position'', 192), (''status'', 512), (''round_timer'', 9000)]"

definition round_over_state :: telemetry where
  "round_over_state = [(''enemy_health'', 0), (''enemy_x_position'', 300), (''enemy_y_position'', 192),
     (''enemy_status'', 528), (''enemy_character'', 3), (''health'', 150), (''x_position'', 205),
     (''y_position'', 192), (''status'', 1024), (''round_timer'', 9000)]"

definition unknown_status_state :: telemetry where
  "unknown_status_state = [(''enemy_health'', 176), (''enemy_x_position'', 300), (''enemy_y_position'', 192),
     (''enemy_status'', 514), (''enemy_character'', 3), (''health'', 150), (''x_position'', 205),
     (''y_position'', 192), (''status'', 534), (''round_timer'', 9000)]"

definition locked_state :: telemetry where
  "locked_state = [(''enemy_health'', 176), (''enemy_x_position'', 300), (''enemy_y_position'', 192),
     (''enemy_status'', 514), (''enemy_character'', 3), (''health'', 150), (''x_position'', 205),
     (''y_position'', 192), (''status'', 526), (''round_timer'', 39208)]"

text \<open>A three-action approximator to run the agent on: its model is the row of three
  action-values it predicts for every input; a fit replaces the row by the target and
  reports the squared error.\<close>

definition table_net :: "(real \<times> real \<times> real) network" where
  "table_net =
     \<lparr> predict = (\<lambda>(a, b, c) x. [a, b, c]),
       fit = (\<lambda>(a, b, c) x y.
                ((y ! 0, y ! 1, y ! 2), (y ! 0 - a) ^ 2 + (y ! 1 - b) ^ 2 + (y ! 2 - c) ^ 2)) \<rparr>"

text \<open>A second approximator of three actions, which predicts the same row whatever its
  model and input are and which a fit leaves unchanged.\<close>

definition constant_net :: "(real \<times> real \<times> real) network" where
  "constant_net = \<lparr> predict = (\<lambda>m x. [1, 0, 0]), fit = (\<lambda>m x y. (m, 0)) \<rparr>"

text \<open>Agents on that approximator: freshly constructed with epsilon 0 and a tie between
  actions 1 and 2; the same with \<open>lastAction\<close> set, to 7 and to 1; the same with three steps
  of different actions in the buffer; the same after a pass that recorded three losses;
  and freshly constructed with epsilon 1.\<close>

definition greedy_agent :: "(unit, real \<times> real \<times> real) agent" where
  "greedy_agent = DeepQAgent_init 32 3 False 0 None (1 / 2, 2, 2)"

definition stale_agent :: "(unit, real \<times> real \<times> real) agent" where
  "stale_agent = greedy_agent\<lparr>lastAction := Some 7\<rparr>"

definition recording_agent :: "(unit, real \<times> real \<times> real) agent" where
  "recording_agent = greedy_agent\<lparr>lastAction := Some 1\<rparr>"

definition buffered_agent :: "(unit, real \<times> real \<times> real) agent" where
  "buffered_agent =
     recording_agent\<lparr>memory := [((), standing_state, 1, 1, (), standing_state, False),
                                 ((), standing_state, 0, 0, (), standing_state, False),
                                 ((), standing_state, - 1, 5, (), round_over_state, True)]\<rparr>"

definition trained_agent :: "(unit, real \<times> real \<times> real) agent" where
  "trained_agent = greedy_agent\<lparr>lossHistory := [1 / 2, 1 / 4, 3 / 4]\<rparr>"

definition exploring_agent :: "(unit, real \<times> real \<times> real) agent" where
  "exploring_agent = DeepQAgent_init 32 3 False 1 None (0, 0, 0)"

definition train_agent :: "(unit, real \<times> real \<times> real) agent" where
  "train_agent = DeepQAgent_init 32 3 False 1 None (0, 2, 1)"

text \<open>Two frames as the play loop hands them to \<open>recordStep\<close>, three prepared training rows
  (\<open>row_a\<close> is the specification's example: reward 1, not terminal), and a disk with no
  file on it.\<close>

definition first_frame :: "unit \<times> telemetry \<times> real \<times> unit \<times> telemetry \<times> bool" where
  "first_frame = ((), standing_state, 1, (), standing_state, False)"

definition later_frame :: "unit \<times> telemetry \<times> real \<times> unit \<times> telemetry \<times> bool" where
  "later_frame = ((), standing_state, 0, (), round_over_state, True)"

definition row_a :: sample where
  "row_a = (feature_layout standing_state, 1, 1, False, feature_layout standing_state)"

definition row_b :: sample where
  "row_b = (feature_layout standing_state, 0, 0, False, feature_layout standing_state)"

definition row_c :: sample where
  "row_c = (feature_layout standing_state, - 1, 5, True, feature_layout round_over_state)"

definition empty_disk :: "(real \<times> real \<times> real) disk" where
  "empty_disk = \<lparr> weights = (\<lambda>p. None), logs = (\<lambda>p. []) \<rparr>"

text \<open>Two generators: one whose every raw number is 0, and one whose first raw number is
  1 and whose later ones are 0.\<close>

definition zero_rng :: "nat \<Rightarrow> nat" where
  "zero_rng i = 0"

definition one_zero_rng :: "nat \<Rightarrow> nat" where
  "one_zero_rng i = (if i = 0 then 1 else 0)"

section \<open>Basic facts\<close>

lemma bindE_eq_Inr: "bindE r f = Inr y \<longleftrightarrow> (\<exists>x. r = Inr x \<and> f x = Inr y)"
  by (cases r) (simp_all add: bindE_def)

lemma bindE_Inr: "bindE (Inr x) f = f x"
  by (simp add: bindE_def)

lemma bindE_Inl: "bindE (Inl e) f = Inl e"
  by (simp add: bindE_def)

lemma dict_getitem_eq_Inr: "dict_getitem d k = Inr v \<longleftrightarrow> map_of d k = Some v"
  by (simp add: dict_getitem_def split: option.splits)

lemma list_setitem_eq_Inr:
  "list_setitem xs i v = Inr ys \<longleftrightarrow>
     - int (length xs) \<le> i \<and> i < int (length xs) \<and> ys = xs[nat (i mod int (length xs)) := v]"
proof (cases "i < 0")
  case True
  have "i mod int (length xs) = i + int (length xs)" if "- int (length xs) \<le> i"
  proof -
    have "i mod int (length xs) = (i + int (length xs)) mod int (length xs)"
      by simp
    also have "\<dots> = i + int (length xs)"
      using that True by (intro mod_pos_pos_trivial) simp_all
    finally show ?thesis .
  qed
  with True show ?thesis
    by (auto simp: list_setitem_def Let_def)
next
  case False
  then have "i < int (length xs) \<Longrightarrow> i mod int (length xs) = i"
    by simp
  with False show ?thesis
    by (auto simp: list_setitem_def Let_def)
qed

lemma one_hot_None: "one_hot n None = replicate n 0"
  by (simp add: one_hot_def map_replicate_const)

lemma one_hot_Some: "k < n \<Longrightarrow> one_hot n (Some k) = (replicate n 0)[k := 1]"
  by (rule nth_equalityI) (auto simp: one_hot_def nth_list_update)

lemma length_one_hot: "length (one_hot n k) = n"
  by (simp add: one_hot_def)

lemma map_of_stateIndices_Some:
  "map_of stateIndices c = Some i \<Longrightarrow> 0 \<le> i \<and> i < 9 \<and> c \<notin> set doneKeys"
  by (auto simp: stateIndices_def doneKeys_def split: if_splits)

lemma length_stateIndices: "length (map fst stateIndices) = 9"
  by (simp add: stateIndices_def)

lemma oneHotState_eq_Inr:
  "oneHotState c = Inr oh \<longleftrightarrow>
     (c \<in> set doneKeys \<or> map_of stateIndices c \<noteq> None) \<and>
     oh = one_hot 9 (map_option nat (map_of stateIndices c))"
proof (cases "c \<in> set doneKeys")
  case True
  then have "map_of stateIndices c = None"
    using map_of_stateIndices_Some [of c] by (cases "map_of stateIndices c") auto
  with True show ?thesis
    by (auto simp: oneHotState_def one_hot_None length_stateIndices simp del: length_map)
next
  case False
  show ?thesis
  proof (cases "map_of stateIndices c")
    case None
    with False show ?thesis
      by (simp add: oneHotState_def bindE_def dict_getitem_def length_stateIndices del: length_map)
  next
    case (Some i)
    from map_of_stateIndices_Some [OF Some] have i: "0 \<le> i" "i < 9" by auto
    then have "i mod 9 = i" by simp
    with False Some i show ?thesis
      by (auto simp: oneHotState_def bindE_eq_Inr dict_getitem_eq_Inr list_setitem_eq_Inr
          one_hot_Some length_stateIndices simp del: length_map)
  qed
qed

lemma length_feature_layout: "length (feature_layout step) = 32"
  by (simp add: feature_layout_def status_one_hot_def length_one_hot)

lemma oneHotState_encodable:
  "oneHotState c = Inr oh \<longleftrightarrow> encodable_status c \<and> oh = status_one_hot c"
  by (auto simp: oneHotState_eq_Inr encodable_status_def status_one_hot_def)

lemma prepareNetworkInputs_eq_Inr:
  "prepareNetworkInputs n step = Inr fv \<longleftrightarrow>
     valid_state step \<and> n = 32 \<and> fv = feature_layout step"
proof
  assume "prepareNetworkInputs n step = Inr fv"
  then obtain eh ex ey es ec h x y s where
    f: "map_of step ''enemy_health'' = Some eh" "map_of step ''enemy_x_position'' = Some ex"
       "map_of step ''enemy_y_position'' = Some ey" "map_of step ''enemy_status'' = Some es"
       "map_of step ''enemy_character'' = Some ec" "map_of step ''health'' = Some h"
       "map_of step ''x_position'' = Some x" "map_of step ''y_position'' = Some y"
       "map_of step ''status'' = Some s"
    and st: "encodable_status es" "encodable_status s"
    and ch: "- 8 \<le> ec" "ec < 8"
    and r: "numpy_reshape ([eh, ex, ey] @ status_one_hot es
              @ (replicate 8 0)[nat (ec mod 8) := 1] @ [h, x, y] @ status_one_hot s) n = Inr fv"
    unfolding prepareNetworkInputs_def bindE_eq_Inr dict_getitem_eq_Inr oneHotState_encodable
      list_setitem_eq_Inr
    by auto
  have "nat (ec mod 8) < 8" by simp
  then have oh: "(replicate 8 0)[nat (ec mod 8) := 1] = one_hot 8 (Some (nat (ec mod 8)))"
    by (simp only: one_hot_Some)
  from r have "n = 32" and "fv = [eh, ex, ey] @ status_one_hot es
              @ (replicate 8 0)[nat (ec mod 8) := 1] @ [h, x, y] @ status_one_hot s"
    by (auto simp: numpy_reshape_def status_one_hot_def length_one_hot split: if_splits)
  with f st ch oh show "valid_state step \<and> n = 32 \<and> fv = feature_layout step"
    by (simp add: valid_state_def required_fields_def field_def feature_layout_def)
next
  assume a: "valid_state step \<and> n = 32 \<and> fv = feature_layout step"
  then obtain eh ex ey es ec h x y s where
    f: "map_of step ''enemy_health'' = Some eh" "map_of step ''enemy_x_position'' = Some ex"
       "map_of step ''enemy_y_position'' = Some ey" "map_of step ''enemy_status'' = Some es"
       "map_of step ''enemy_character'' = Some ec" "map_of step ''health'' = Some h"
       "map_of step ''x_position'' = Some x" "map_of step ''y_position'' = Some y"
       "map_of step ''status'' = Some s"
    by (auto simp: valid_state_def required_fields_def)
  with a have st: "encodable_status es" "encodable_status s" and ch: "- 8 \<le> ec" "ec < 8"
    by (simp_all add: valid_state_def field_def)
  have "nat (ec mod 8) < 8" by simp
  then have oh: "(replicate 8 0)[nat (ec mod 8) := 1] = one_hot 8 (Some (nat (ec mod 8)))"
    by (simp only: one_hot_Some)
  have len: "length ([eh, ex, ey] @ status_one_hot es
              @ (replicate 8 0)[nat (ec mod 8) := 1] @ [h, x, y] @ status_one_hot s) = 32"
    by (simp add: status_one_hot_def length_one_hot)
  have "prepareNetworkInputs n step = numpy_reshape ([eh, ex, ey] @ status_one_hot es
              @ (replicate 8 0)[nat (ec mod 8) := 1] @ [h, x, y] @ status_one_hot s) n"
    using f st ch
    by (simp add: prepareNetworkInputs_def dict_getitem_def bindE_Inr oneHotState_encodable [THEN iffD2]
        list_setitem_eq_Inr [THEN iffD2])
  also have "\<dots> = Inr fv"
    using a f len oh unfolding numpy_reshape_def
    by (simp add: feature_layout_def field_def)
  finally show "prepareNetworkInputs n step = Inr fv" .
qed

lemma valid_standing_state: "valid_state standing_state"
  by (simp add: valid_state_def standing_state_def required_fields_def encodable_status_def
      field_def stateIndices_def)

lemma feature_layout_standing_state:
  "feature_layout standing_state =
     [176, 300, 192,  0, 1, 0, 0, 0, 0, 0, 0, 0,  0, 0, 0, 1, 0, 0, 0, 0,
      150, 205, 192,  1, 0, 0, 0, 0, 0, 0, 0, 0]"
  by (simp add: feature_layout_def standing_state_def field_def status_one_hot_def one_hot_def
      stateIndices_def upt_rec [of _ "numeral _"])

lemma status_one_hot_done: "c \<in> set doneKeys \<Longrightarrow> status_one_hot c = replicate 9 0"
proof -
  assume "c \<in> set doneKeys"
  then have "map_of stateIndices c = None"
    using map_of_stateIndices_Some [of c] by (cases "map_of stateIndices c") auto
  then show ?thesis by (simp add: status_one_hot_def one_hot_None)
qed

lemma length_status_one_hot: "length (status_one_hot c) = 9"
  by (simp add: status_one_hot_def length_one_hot)

lemma feature_layout_segments:
  "take 9 (drop 3 (feature_layout step)) = status_one_hot (field step ''enemy_status'')"
  "drop 23 (feature_layout step) = status_one_hot (field step ''status'')"
  by (simp_all add: feature_layout_def length_status_one_hot length_one_hot)

lemma valid_round_over_state: "valid_state round_over_state"
  by (simp add: valid_state_def round_over_state_def required_fields_def encodable_status_def
      field_def stateIndices_def doneKeys_def)

lemma deque_append_length: "length xs \<le> n \<Longrightarrow> length (deque_append n xs x) \<le> n"
  by (auto simp: deque_append_def Let_def)

lemma deque_append_full:
  "length xs = n \<Longrightarrow> 0 < n \<Longrightarrow> deque_append n xs x = tl xs @ [x]"
  by (cases xs) (auto simp: deque_append_def Let_def)

lemma deque_append_room: "length xs < n \<Longrightarrow> deque_append n xs x = xs @ [x]"
  by (auto simp: deque_append_def Let_def)

lemma deque_append_last:
  "0 < n \<Longrightarrow> deque_append n xs x \<noteq> [] \<and> last (deque_append n xs x) = x"
  by (cases xs) (auto simp: deque_append_def Let_def)

lemma foldl_deque_append: "foldl (deque_append n) [] ts = drop (length ts - n) ts"
proof (induction ts rule: rev_induct)
  case Nil
  then show ?case by simp
next
  case (snoc t ts)
  show ?case
  proof (cases "length ts < n")
    case True
    with snoc show ?thesis by (simp add: deque_append_def Let_def)
  next
    case False
    define k where "k = length ts - n"
    have len: "length (drop k ts) = n" using False by (simp add: k_def)
    have "foldl (deque_append n) [] (ts @ [t]) = deque_append n (drop k ts) t"
      using snoc by (simp add: k_def)
    also have "\<dots> = tl (drop k ts @ [t])"
      using len by (simp add: deque_append_def Let_def)
    finally have step: "foldl (deque_append n) [] (ts @ [t]) = tl (drop k ts @ [t])" .
    have goal: "drop (length (ts @ [t]) - n) (ts @ [t]) = drop (Suc k) (ts @ [t])"
      using False by (simp add: k_def Suc_diff_le)
    show ?thesis
    proof (cases "n = 0")
      case True
      then have "drop k ts = []" using len by simp
      moreover have "k = length ts" using True by (simp add: k_def)
      ultimately show ?thesis unfolding step goal by simp
    next
      case False
      then have ne: "drop k ts \<noteq> []" using len by auto
      then have "k < length ts" by simp
      then have "drop (Suc k) (ts @ [t]) = drop (Suc k) ts @ [t]" by simp
      moreover have "tl (drop k ts @ [t]) = tl (drop k ts) @ [t]" using ne by simp
      moreover have "tl (drop k ts) = drop (Suc k) ts" by (simp add: drop_Suc drop_tl)
      ultimately show ?thesis unfolding step goal by simp
    qed
  qed
qed

lemma recordSteps_foldl:
  "lastAction ag = Some a \<Longrightarrow>
   recordSteps ag frames =
     Inr (ag\<lparr>memory := foldl (deque_append MAX_DATA_LENGTH) (memory ag) (map (with_action a) frames)\<rparr>)"
proof (induction frames arbitrary: ag)
  case Nil
  then show ?case by simp
next
  case (Cons f frames)
  obtain obs st r obs' st' d where f: "f = (obs, st, r, obs', st', d)"
    by (cases f) auto
  let ?ag = "ag\<lparr>memory := deque_append MAX_DATA_LENGTH (memory ag) (with_action a f)\<rparr>"
  have "lastAction ?ag = Some a" using Cons.prems by simp
  from Cons.IH [OF this] Cons.prems show ?case
    by (simp add: f recordStep_def bindE_def with_action_def)
qed

lemma random_sample_Nil: "random_sample rng [] 0 = Inr []"
  by (simp add: random_sample_def)

lemma trainNetwork_no_data:
  "trainNetwork net ag rng [] m =
     Inr (ag\<lparr>lossHistory := [],
              epsilon := (if EPSILON_MIN < epsilon ag then epsilon ag * epsilonDecay ag
                          else epsilon ag)\<rparr>, m, [])"
  by (simp add: trainNetwork_def random_sample_Nil losses_clear_def bindE_def)

lemma argmax_scan_first_max:
  assumes "bi < length pre" "pre ! bi = best"
    and "\<forall>j<length pre. pre ! j \<le> best" "\<forall>j<bi. pre ! j < best"
  shows "argmax_scan xs (length pre) best bi < length (pre @ xs) \<and>
         (\<forall>j<length (pre @ xs). (pre @ xs) ! j \<le> (pre @ xs) ! argmax_scan xs (length pre) best bi) \<and>
         (\<forall>j<argmax_scan xs (length pre) best bi.
             (pre @ xs) ! j < (pre @ xs) ! argmax_scan xs (length pre) best bi)"
  using assms
proof (induction xs arbitrary: pre best bi)
  case Nil
  then show ?case by simp
next
  case (Cons x xs)
  show ?case
  proof (cases "best < x")
    case True
    have "argmax_scan xs (length (pre @ [x])) x (length pre) < length ((pre @ [x]) @ xs) \<and>
         (\<forall>j<length ((pre @ [x]) @ xs). ((pre @ [x]) @ xs) ! j
              \<le> ((pre @ [x]) @ xs) ! argmax_scan xs (length (pre @ [x])) x (length pre)) \<and>
         (\<forall>j<argmax_scan xs (length (pre @ [x])) x (length pre).
             ((pre @ [x]) @ xs) ! j < ((pre @ [x]) @ xs) ! argmax_scan xs (length (pre @ [x])) x (length pre))"
    proof (rule Cons.IH)
      show "length pre < length (pre @ [x])" by simp
      show "(pre @ [x]) ! length pre = x" by simp
      show "\<forall>j<length (pre @ [x]). (pre @ [x]) ! j \<le> x"
        using Cons.prems(3) True by (auto simp: nth_append less_Suc_eq intro: less_imp_le order.strict_trans1)
      show "\<forall>j<length pre. (pre @ [x]) ! j < x"
        using Cons.prems(3) True by (auto simp: nth_append)
    qed
    with True show ?thesis by simp
  next
    case False
    have "argmax_scan xs (length (pre @ [x])) best bi < length ((pre @ [x]) @ xs) \<and>
         (\<forall>j<length ((pre @ [x]) @ xs). ((pre @ [x]) @ xs) ! j
              \<le> ((pre @ [x]) @ xs) ! argmax_scan xs (length (pre @ [x])) best bi) \<and>
         (\<forall>j<argmax_scan xs (length (pre @ [x])) best bi.
             ((pre @ [x]) @ xs) ! j < ((pre @ [x]) @ xs) ! argmax_scan xs (length (pre @ [x])) best bi)"
    proof (rule Cons.IH)
      show "bi < length (pre @ [x])" using Cons.prems(1) by simp
      show "(pre @ [x]) ! bi = best" using Cons.prems(1,2) by (simp add: nth_append)
      show "\<forall>j<length (pre @ [x]). (pre @ [x]) ! j \<le> best"
        using Cons.prems(3) False by (auto simp: nth_append less_Suc_eq)
      show "\<forall>j<bi. (pre @ [x]) ! j < best"
        using Cons.prems(1,4) by (auto simp: nth_append)
    qed
    with False show ?thesis by simp
  qed
qed

lemma numpy_argmax_first_max:
  assumes "q \<noteq> []"
  shows "\<exists>k. numpy_argmax q = Inr k \<and> k < length q \<and> q ! k = Max (set q) \<and> (\<forall>j<k. q ! j < q ! k)"
proof -
  from assms obtain x rest where q: "q = x # rest" by (cases q) auto
  define k where "k = argmax_scan rest 1 x 0"
  from argmax_scan_first_max [of 0 "[x]" x rest]
  have k: "k < length q" "\<forall>j<length q. q ! j \<le> q ! k" "\<forall>j<k. q ! j < q ! k"
    by (simp_all add: q k_def)
  have "q ! k = Max (set q)"
  proof (rule sym, rule Max_eqI)
    show "finite (set q)" by simp
    show "q ! k \<in> set q" using k(1) by simp
    fix y assume "y \<in> set q"
    then obtain j where "j < length q" "q ! j = y" by (auto simp: in_set_conv_nth)
    with k(2) show "y \<le> q ! k" by auto
  qed
  with k show ?thesis by (auto simp: numpy_argmax_def q k_def)
qed

lemma pow_interval_mult:
  fixes x :: real
  assumes "0 \<le> l1" "l1 \<le> x ^ m \<and> x ^ m \<le> h1" "0 \<le> l2" "l2 \<le> x ^ n \<and> x ^ n \<le> h2"
    and "k = m + n"
  shows "l1 * l2 \<le> x ^ k \<and> x ^ k \<le> h1 * h2"
proof -
  have "l1 * l2 \<le> x ^ m * x ^ n"
    using assms by (intro mult_mono) auto
  moreover have "x ^ m * x ^ n \<le> h1 * h2"
    using assms by (intro mult_mono) auto
  ultimately show ?thesis using assms(5) by (simp add: power_add)
qed

lemma decay_pow_bounds:
  "(1 / 10 :: real) < (999 / 1000) ^ 2301 \<and> (999 / 1000 :: real) ^ 2302 < 1 / 10"
proof -
  define r :: real where "r = 999 / 1000"
  have p1: "999 / 1000 \<le> r ^ 1 \<and> r ^ 1 \<le> 999 / 1000"
    by (simp add: r_def)
  have p2: "998001 / 1000000 \<le> r ^ 2 \<and> r ^ 2 \<le> 998001 / 1000000"
    using pow_interval_mult [OF _ p1 _ p1, where k = 2] by simp
  have p4: "996005996001 / 1000000000000 \<le> r ^ 4 \<and> r ^ 4 \<le> 996005996001 / 1000000000000"
    using pow_interval_mult [OF _ p2 _ p2, where k = 4] by simp
  have p8: "124003493008743 / 125000000000000 \<le> r ^ 8 \<and> r ^ 8 \<le> 198405588813989 / 200000000000000"
    using pow_interval_mult [OF _ p4 _ p4, where k = 8] by simp
  have p16: "984119441815639 / 1000000000000000 \<le> r ^ 16 \<and> r ^ 16 \<le> 492059720907821 / 500000000000000"
    using pow_interval_mult [OF _ p8 _ p8, where k = 16] by simp
  have p32: "242122768939881 / 250000000000000 \<le> r ^ 32 \<and> r ^ 32 \<le> 968491075759531 / 1000000000000000"
    using pow_interval_mult [OF _ p16 _ p16, where k = 32] by simp
  have p64: "11724687047823 / 12500000000000 \<le> r ^ 64 \<and> r ^ 64 \<le> 468987481912927 / 500000000000000"
    using pow_interval_mult [OF _ p32 _ p32, where k = 64] by simp
  have p128: "175959406552817 / 200000000000000 \<le> r ^ 128 \<and> r ^ 128 \<le> 879797032764113 / 1000000000000000"
    using pow_interval_mult [OF _ p64 _ p64, where k = 128] by simp
  have p256: "96755352357561 / 125000000000000 \<le> r ^ 256 \<and> r ^ 256 \<le> 387021409430269 / 500000000000000"
    using pow_interval_mult [OF _ p128 _ p128, where k = 256] by simp
  have p512: "59914228542949 / 100000000000000 \<le> r ^ 512 \<and> r ^ 512 \<le> 9361598209837 / 15625000000000"
    using pow_interval_mult [OF _ p256 _ p256, where k = 512] by simp
  have p1024: "44871434773709 / 125000000000000 \<le> r ^ 1024 \<and> r ^ 1024 \<le> 179485739094883 / 500000000000000"
    using pow_interval_mult [OF _ p512 _ p512, where k = 1024] by simp
  have p2048: "64430261076839 / 500000000000000 \<le> r ^ 2048 \<and> r ^ 2048 \<le> 64430261076873 / 500000000000000"
    using pow_interval_mult [OF _ p1024 _ p1024, where k = 2048] by simp
  have p2176: "28342776257809 / 250000000000000 \<le> r ^ 2176 \<and> r ^ 2176 \<le> 1133711050313 / 10000000000000"
    using pow_interval_mult [OF _ p2048 _ p128, where k = 2176] by simp
  have p2240: "106339258140569 / 1000000000000000 \<le> r ^ 2240 \<and> r ^ 2240 \<le> 106339258140631 / 1000000000000000"
    using pow_interval_mult [OF _ p2176 _ p64, where k = 2240] by simp
  have p2272: "102988622512029 / 1000000000000000 \<le> r ^ 2272 \<and> r ^ 2272 \<le> 102988622512091 / 1000000000000000"
    using pow_interval_mult [OF _ p2240 _ p32, where k = 2272] by simp
  have p2288: "101353105699899 / 1000000000000000 \<le> r ^ 2288 \<and> r ^ 2288 \<le> 101353105699961 / 1000000000000000"
    using pow_interval_mult [OF _ p2272 _ p16, where k = 2288] by simp
  have p2296: "50272556536287 / 500000000000000 \<le> r ^ 2296 \<and> r ^ 2296 \<le> 100545113072637 / 1000000000000000"
    using pow_interval_mult [OF _ p2288 _ p8, where k = 2296] by simp
  have p2300: "50071767744441 / 500000000000000 \<le> r ^ 2300 \<and> r ^ 2300 \<le> 20028707097789 / 200000000000000"
    using pow_interval_mult [OF _ p2296 _ p4, where k = 2300] by simp
  have p2301: "100043391953393 / 1000000000000000 \<le> r ^ 2301 \<and> r ^ 2301 \<le> 100043391953457 / 1000000000000000"
    using pow_interval_mult [OF _ p2300 _ p1, where k = 2301] by simp
  have p2302: "99943348561439 / 1000000000000000 \<le> r ^ 2302 \<and> r ^ 2302 \<le> 99943348561503 / 1000000000000000"
    using pow_interval_mult [OF _ p2300 _ p2, where k = 2302] by simp
  from p2301 p2302 show ?thesis
    unfolding r_def by simp
qed

lemma trainNetwork_epsilon:
  assumes "trainNetwork net ag rng data m = Inr (ag', m', calls)"
  shows "epsilon ag' = (if EPSILON_MIN < epsilon ag then epsilon ag * epsilonDecay ag else epsilon ag)"
    and "epsilonDecay ag' = epsilonDecay ag"
  using assms by (auto simp: trainNetwork_def Let_def bindE_eq_Inr)

lemma decay_step_pow:
  fixes e r :: real
  assumes "EPSILON_MIN < r ^ 2301" "r ^ 2302 < EPSILON_MIN" "0 \<le> r" "r \<le> 1"
    and "e = r ^ min j 2302"
  shows "(if EPSILON_MIN < e then e * r else e) = r ^ min (Suc j) 2302"
proof (cases "j < 2302")
  case True
  then have "r ^ 2301 \<le> r ^ j"
    using assms(3,4) by (intro power_decreasing) auto
  with assms(1) have "EPSILON_MIN < r ^ j" by simp
  moreover from True have "min j 2302 = j" "min (Suc j) 2302 = Suc j" by simp_all
  ultimately show ?thesis using assms(5) by simp
next
  case False
  then have "min j 2302 = 2302" "min (Suc j) 2302 = 2302" by simp_all
  with assms(2,5) show ?thesis by simp
qed

lemma trainPasses_epsilon:
  fixes r :: real
  assumes "EPSILON_MIN < r ^ 2301" "r ^ 2302 < EPSILON_MIN" "0 \<le> r" "r \<le> 1"
  shows "trainPasses net ag passes = Inr ag' \<Longrightarrow> epsilonDecay ag = r \<Longrightarrow>
   epsilon ag = r ^ min j 2302 \<Longrightarrow>
   epsilon ag' = r ^ min (j + length passes) 2302"
proof (induction passes arbitrary: ag j)
  case Nil
  then show ?case by simp
next
  case (Cons p passes)
  obtain rng data where p: "p = (rng, data)" by (cases p) auto
  from Cons.prems(1) obtain ag1 m1 calls where
    t: "trainNetwork net ag rng data (model ag) = Inr (ag1, m1, calls)"
    and r: "trainPasses net (ag1\<lparr>model := m1\<rparr>) passes = Inr ag'"
    by (auto simp: p bindE_eq_Inr)
  have "epsilon ag1 = (if EPSILON_MIN < epsilon ag then epsilon ag * r else epsilon ag)"
    using trainNetwork_epsilon(1) [OF t] Cons.prems(2) by simp
  also have "\<dots> = r ^ min (Suc j) 2302"
    by (rule decay_step_pow [OF assms Cons.prems(3)])
  finally have e: "epsilon (ag1\<lparr>model := m1\<rparr>) = r ^ min (Suc j) 2302" by simp
  have d: "epsilonDecay (ag1\<lparr>model := m1\<rparr>) = r"
    using trainNetwork_epsilon(2) [OF t] Cons.prems(2) by simp
  have "Suc j + length passes = j + length (p # passes)" by simp
  with Cons.IH [OF r d e] show ?case by (simp only:)
qed

lemma trainPasses_no_data_returns:
  "\<exists>ag'. trainPasses net ag (replicate N (rng, [])) = Inr ag'"
  by (induction N arbitrary: ag) (simp_all add: trainNetwork_no_data bindE_def)

lemma numpy_amax_Max: "xs \<noteq> [] \<Longrightarrow> numpy_amax xs = Inr (Max (set xs))"
proof (cases xs)
  case Nil
  assume "xs \<noteq> []"
  with Nil show ?thesis by simp
next
  case (Cons x rest)
  have "fold max rest x = Max (set (x # rest))"
    by (simp only: Max.set_eq_fold)
  with Cons show ?thesis by (simp add: numpy_amax_def)
qed

lemma trainStep_ok:
  assumes "\<forall>m x. length (predict net m x) = n" "0 < n" "valid_action n (fst (snd row))"
  shows "trainStep net g n (m, losses) row =
     Inr ((fst (fit net m (fst row) (snd (expected_call net g n m row))),
           losses @ [snd (fit net m (fst row) (snd (expected_call net g n m row)))]),
          expected_call net g n m row)"
proof -
  obtain s a r d s' where row: "row = (s, a, r, d, s')" by (cases row) auto
  have ne: "predict net m s' \<noteq> []" using assms(1,2) by (metis length_0_conv less_numeral_extra(3))
  have len: "length (predict net m s) = n" using assms(1) by simp
  have set: "list_setitem (predict net m s) a v = Inr ((predict net m s)[action_index n a := v])" for v
    using assms(3) len by (simp add: list_setitem_eq_Inr row valid_action_def action_index_def)
  show ?thesis
    by (cases d)
      (simp_all add: trainStep_def row Let_def numpy_amax_Max [OF ne] bindE_Inr set
        numpy_reshape_def len expected_call_def spec_target_def on_fit_end_def case_prod_beta)
qed

lemma trainLoop_ok:
  assumes "\<forall>m x. length (predict net m x) = n" "0 < n"
  shows "\<forall>row\<in>set rows. valid_action n (fst (snd row)) \<Longrightarrow>
     \<exists>m' losses' calls. trainLoop net g n (m, losses) rows = Inr ((m', losses'), calls) \<and>
        length calls = length rows \<and> length losses' = length losses + length rows \<and>
        (\<forall>i<length rows. calls ! i = expected_call net g n (replay net m (take i calls)) (rows ! i))"
proof (induction rows arbitrary: m losses)
  case Nil
  then show ?case by simp
next
  case (Cons row rows)
  define c where "c = expected_call net g n m row"
  define m1 where "m1 = fst (fit net m (fst row) (snd c))"
  define l1 where "l1 = losses @ [snd (fit net m (fst row) (snd c))]"
  have st: "trainStep net g n (m, losses) row = Inr ((m1, l1), c)"
    using trainStep_ok [OF assms, of row g m losses] Cons.prems by (simp add: c_def m1_def l1_def)
  from Cons.IH [of m1 l1] Cons.prems obtain m' losses' calls where
    ih: "trainLoop net g n (m1, l1) rows = Inr ((m', losses'), calls)"
      "length calls = length rows" "length losses' = length l1 + length rows"
      "\<forall>i<length rows. calls ! i = expected_call net g n (replay net m1 (take i calls)) (rows ! i)"
    by auto
  have fstc: "fst c = fst row"
    by (cases row) (simp add: c_def expected_call_def)
  have rp: "replay net m (c # cs) = replay net m1 cs" for cs
    by (cases c) (use fstc in \<open>simp add: m1_def\<close>)
  have "trainLoop net g n (m, losses) (row # rows) = Inr ((m', losses'), c # calls)"
    by (simp add: st ih(1) bindE_Inr)
  moreover have "\<forall>i<length (row # rows). (c # calls) ! i =
      expected_call net g n (replay net m (take i (c # calls))) ((row # rows) ! i)"
  proof (intro allI impI)
    fix i assume "i < length (row # rows)"
    show "(c # calls) ! i =
      expected_call net g n (replay net m (take i (c # calls))) ((row # rows) ! i)"
    proof (cases i)
      case 0
      then show ?thesis by (simp add: c_def)
    next
      case (Suc k)
      with \<open>i < length (row # rows)\<close> have "k < length rows" by simp
      with ih(4) have "calls ! k = expected_call net g n (replay net m1 (take k calls)) (rows ! k)"
        by blast
      with Suc show ?thesis by (simp add: rp)
    qed
  qed
  ultimately show ?case
    using ih(2,3) by (simp add: l1_def)
qed

lemma pool_loop_mset:
  "i + rounds = length pool \<Longrightarrow> mset (pool_loop rng i pool rounds) = mset (take rounds pool)"
proof (induction rounds arbitrary: i pool)
  case 0
  then show ?case by simp
next
  case (Suc rounds)
  define j where "j = rng i mod Suc rounds"
  define pool' where "pool' = pool[j := pool ! rounds]"
  have live: "length pool - i = Suc rounds" using Suc.prems by simp
  have j: "j < Suc rounds" by (simp add: j_def)
  have r: "rounds < length pool" using Suc.prems by simp
  have "Suc i + rounds = length pool'" using Suc.prems by (simp add: pool'_def)
  from Suc.IH [OF this]
  have ih: "mset (pool_loop rng (Suc i) pool' rounds) = mset (take rounds pool')" .
  have step: "pool_loop rng i pool (Suc rounds) = pool ! j # pool_loop rng (Suc i) pool' rounds"
    by (simp add: live Let_def j_def pool'_def)
  have tk: "mset (take (Suc rounds) pool) = add_mset (pool ! rounds) (mset (take rounds pool))"
    using r by (simp add: take_Suc_conv_app_nth)
  have "add_mset (pool ! j) (mset (take rounds pool')) =
      add_mset (pool ! rounds) (mset (take rounds pool))"
  proof (cases "j = rounds")
    case True
    then show ?thesis by (simp add: pool'_def)
  next
    case False
    with j have jl: "j < rounds" by simp
    have "take rounds pool' = (take rounds pool)[j := pool ! rounds]"
      by (simp add: pool'_def take_update_swap)
    moreover have "(take rounds pool) ! j = pool ! j" using jl by simp
    moreover have jt: "j < length (take rounds pool)" using jl r by simp
    moreover have "pool ! j \<in># mset (take rounds pool)"
      using nth_mem [OF jt] jl by simp
    ultimately show ?thesis
      by (simp add: mset_update insert_DiffM)
  qed
  with step ih tk show ?case by simp
qed

lemma random_sample_full:
  "\<exists>rows. random_sample rng data (length data) = Inr rows \<and> mset rows = mset data \<and>
     length rows = length data \<and> set rows = set data"
proof -
  have m: "mset (pool_loop rng 0 data (length data)) = mset data"
    using pool_loop_mset [of 0 "length data" data rng] by simp
  from m have "length (pool_loop rng 0 data (length data)) = length data"
    by (rule mset_eq_length)
  moreover from m have "set (pool_loop rng 0 data (length data)) = set data"
    by (rule mset_eq_setD)
  ultimately show ?thesis using m by (simp add: random_sample_def)
qed

lemma prepareSteps_ok:
  "\<forall>step\<in>set mem. valid_state (STATE_INDEX step) \<and> valid_state (NEXT_STATE_INDEX step) \<Longrightarrow>
   prepareSteps 32 mem = Inr (map encoded_row mem)"
  by (induction mem) (simp_all add: prepareNetworkInputs_eq_Inr [THEN iffD2] bindE_Inr encoded_row_def)

lemma fst_expected_call: "fst (expected_call net g n m row) = fst row"
  by (cases row) (simp add: expected_call_def)

lemma trainNetwork_ok:
  assumes "\<forall>m x. length (predict net m x) = actionSize ag" "0 < actionSize ag"
    and "\<forall>row\<in>set data. valid_action (actionSize ag) (fst (snd row))"
  shows "\<exists>rows losses' m' calls.
     random_sample rng data (length data) = Inr rows \<and> mset rows = mset data \<and>
     trainNetwork net ag rng data m =
       Inr (ag\<lparr>lossHistory := losses',
                epsilon := (if EPSILON_MIN < epsilon ag then epsilon ag * epsilonDecay ag
                            else epsilon ag)\<rparr>, m', calls) \<and>
     length losses' = length data \<and> length calls = length data \<and>
     map fst calls = map fst rows \<and>
     (\<forall>i<length data. calls ! i =
        expected_call net (gamma ag) (actionSize ag) (replay net m (take i calls)) (rows ! i))"
proof -
  from random_sample_full [of rng data] obtain rows where
    rs: "random_sample rng data (length data) = Inr rows" "mset rows = mset data"
    and len: "length rows = length data" and set: "set rows = set data"
    by blast
  have "\<forall>row\<in>set rows. valid_action (actionSize ag) (fst (snd row))"
    using assms(3) set by simp
  from trainLoop_ok [OF assms(1,2) this, of "gamma ag" m "losses_clear (lossHistory ag)"]
  obtain m' losses' calls where
    l: "trainLoop net (gamma ag) (actionSize ag) (m, losses_clear (lossHistory ag)) rows
          = Inr ((m', losses'), calls)"
      "length calls = length rows"
      "length losses' = length (losses_clear (lossHistory ag)) + length rows"
      "\<forall>i<length rows. calls ! i =
          expected_call net (gamma ag) (actionSize ag) (replay net m (take i calls)) (rows ! i)"
    by blast
  have "map fst calls = map fst rows"
    by (rule nth_equalityI) (simp_all add: l(2) l(4) fst_expected_call)
  moreover have "trainNetwork net ag rng data m =
      Inr (ag\<lparr>lossHistory := losses',
               epsilon := (if EPSILON_MIN < epsilon ag then epsilon ag * epsilonDecay ag
                           else epsilon ag)\<rparr>, m', calls)"
    by (simp add: trainNetwork_def Let_def rs(1) l(1) bindE_Inr)
  moreover have "length losses' = length data" "length calls = length data"
    using l(2,3) len by (simp_all add: losses_clear_def)
  moreover have "\<forall>i<length data. calls ! i =
        expected_call net (gamma ag) (actionSize ag) (replay net m (take i calls)) (rows ! i)"
    using l(4) len by simp
  ultimately show ?thesis using rs by blast
qed

lemma reviewFight_ok:
  assumes "\<forall>m x. length (predict net m x) = actionSize ag" "0 < actionSize ag"
    and "stateSize ag = 32" "memory ag \<noteq> []"
    and "\<forall>step\<in>set (memory ag). valid_state (STATE_INDEX step) \<and>
           valid_state (NEXT_STATE_INDEX step) \<and> valid_action (actionSize ag) (ACTION_INDEX step)"
  shows "\<exists>rows ag' d' calls.
     random_sample rng (map encoded_row (memory ag)) (length (memory ag)) = Inr rows \<and>
     mset rows = mset (map encoded_row (memory ag)) \<and>
     reviewFight net ag rng d = Inr (ag', d', calls) \<and> memory ag' = [] \<and>
     length calls = length (memory ag) \<and> map fst calls = map fst rows \<and>
     mset (map fst calls) = mset (map (\<lambda>step. feature_layout (STATE_INDEX step)) (memory ag))"
proof -
  let ?data = "map encoded_row (memory ag)"
  have prep: "prepareMemoryForTraining ag = Inr ?data"
    using assms(3,5) by (simp add: prepareMemoryForTraining_def prepareSteps_ok)
  have acts: "\<forall>row\<in>set ?data. valid_action (actionSize ag) (fst (snd row))"
    using assms(5) by (simp add: encoded_row_def)
  from trainNetwork_ok [OF assms(1,2) acts, of rng "model ag"]
  obtain rows losses' m' calls where
    rs: "random_sample rng ?data (length ?data) = Inr rows" "mset rows = mset ?data"
    and t: "trainNetwork net ag rng ?data (model ag) =
          Inr (ag\<lparr>lossHistory := losses',
                   epsilon := (if EPSILON_MIN < epsilon ag then epsilon ag * epsilonDecay ag
                               else epsilon ag)\<rparr>, m', calls)"
      "length losses' = length ?data" "length calls = length ?data"
      "map fst calls = map fst rows"
    by blast
  have "losses' \<noteq> []" using t(2) assms(4) by auto
  then have rev: "\<exists>ag' d'. reviewFight net ag rng d = Inr (ag', d', calls) \<and> memory ag' = []"
    by (simp add: reviewFight_def prep t(1) bindE_Inr Let_def saveModel_def prepareForNextFight_def)
  have "mset (map fst calls) = image_mset fst (mset rows)"
    by (simp add: t(4))
  also have "\<dots> = image_mset fst (mset ?data)"
    by (simp only: rs(2))
  also have "\<dots> = mset (map (\<lambda>step. feature_layout (STATE_INDEX step)) (memory ag))"
    by (simp add: multiset.map_comp comp_def encoded_row_def)
  finally have fin: "mset (map fst calls) =
      mset (map (\<lambda>step. feature_layout (STATE_INDEX step)) (memory ag))" .
  from rev obtain ag' d' where
    "reviewFight net ag rng d = Inr (ag', d', calls)" "memory ag' = []"
    by blast
  moreover have "length calls = length (memory ag)"
    using t(3) by simp
  moreover have "random_sample rng ?data (length (memory ag)) = Inr rows"
    using rs(1) by simp
  ultimately show ?thesis
    using rs(2) t(4) fin by blast
qed

lemma record_then_review:
  assumes "\<forall>m x. length (predict net m x) = actionSize ag" "stateSize ag = 32"
    and "lastAction ag = Some a" "valid_action (actionSize ag) a" "memory ag = []"
    and "frames \<noteq> []"
    and "\<forall>frame\<in>set frames. valid_state (STATE_INDEX (with_action a frame)) \<and>
           valid_state (NEXT_STATE_INDEX (with_action a frame))"
  shows "\<exists>agR ag' d' calls. recordSteps ag frames = Inr agR \<and>
     memory agR = drop (length frames - 50000) (map (with_action a) frames) \<and>
     reviewFight net agR rng d = Inr (ag', d', calls) \<and> memory ag' = [] \<and>
     length calls = min (length frames) 50000 \<and>
     mset (map fst calls) = mset (map (\<lambda>step. feature_layout (STATE_INDEX step)) (memory agR))"
proof -
  define mem where "mem = drop (length frames - 50000) (map (with_action a) frames)"
  define agR where "agR = ag\<lparr>memory := mem\<rparr>"
  have rec: "recordSteps ag frames = Inr agR"
    using foldl_deque_append [of MAX_DATA_LENGTH "map (with_action a) frames"] assms(3,5)
    by (simp add: recordSteps_foldl agR_def mem_def MAX_DATA_LENGTH_def)
  have len: "length mem = min (length frames) 50000"
    by (simp add: mem_def)
  have "0 < length frames" using assms(6) by simp
  then have "0 < length mem" unfolding len by simp
  then have ne: "memory agR \<noteq> []"
    by (simp add: agR_def)
  have pos: "0 < actionSize agR"
    using assms(4) by (simp add: agR_def valid_action_def)
  have "set mem \<subseteq> set (map (with_action a) frames)"
    unfolding mem_def by (rule set_drop_subset)
  then have steps: "\<forall>step\<in>set (memory agR). valid_state (STATE_INDEX step) \<and>
           valid_state (NEXT_STATE_INDEX step) \<and> valid_action (actionSize agR) (ACTION_INDEX step)"
    using assms(4,7) by (auto simp: agR_def ACTION_INDEX_def with_action_def)
  have shape: "\<forall>m x. length (predict net m x) = actionSize agR"
    using assms(1) by (simp add: agR_def)
  have size: "stateSize agR = 32" using assms(2) by (simp add: agR_def)
  from reviewFight_ok [OF shape pos size ne steps, of rng d]
  obtain ag' d' calls where
    "reviewFight net agR rng d = Inr (ag', d', calls)" "memory ag' = []"
    "length calls = length (memory agR)"
    "mset (map fst calls) = mset (map (\<lambda>step. feature_layout (STATE_INDEX step)) (memory agR))"
    by blast
  with rec len show ?thesis
    by (auto simp: agR_def mem_def)
qed

lemma review_after_appends:
  assumes "\<forall>m x. length (predict net m x) = actionSize ag" "0 < actionSize ag"
    and "stateSize ag = 32"
    and "steps \<noteq> []" "\<forall>step\<in>set steps. valid_step (actionSize ag) step"
    and "memory ag = foldl (deque_append MAX_DATA_LENGTH) [] steps"
  shows "\<exists>ag' d' calls. reviewFight net ag rng d = Inr (ag', d', calls) \<and> memory ag' = [] \<and>
     length calls = min (length steps) 50000"
proof -
  have mem: "memory ag = drop (length steps - 50000) steps"
    using assms(6) foldl_deque_append [of MAX_DATA_LENGTH steps]
    by (simp add: MAX_DATA_LENGTH_def)
  have len: "length (memory ag) = min (length steps) 50000"
    by (simp add: mem)
  have "0 < length steps" using assms(4) by simp
  then have "0 < length (memory ag)" unfolding len by simp
  then have ne: "memory ag \<noteq> []" by simp
  have "set (memory ag) \<subseteq> set steps"
    unfolding mem by (rule set_drop_subset)
  then have steps: "\<forall>step\<in>set (memory ag). valid_state (STATE_INDEX step) \<and>
           valid_state (NEXT_STATE_INDEX step) \<and> valid_action (actionSize ag) (ACTION_INDEX step)"
    using assms(5) by (auto simp: valid_step_def)
  from reviewFight_ok [OF assms(1,2,3) ne steps, of rng d] len
  show ?thesis by auto
qed

lemma recording_agent_fields:
  "actionSize recording_agent = 3" "stateSize recording_agent = 32"
  "lastAction recording_agent = Some 1" "memory recording_agent = []"
  by (simp_all add: recording_agent_def greedy_agent_def DeepQAgent_init_def prepareForNextFight_def)

lemma table_net_shape: "\<forall>m x. length (predict table_net m x) = 3"
  by (simp add: table_net_def case_prod_beta)

lemma valid_first_frame:
  "valid_state (STATE_INDEX (with_action a first_frame))"
  "valid_state (NEXT_STATE_INDEX (with_action a first_frame))"
  by (simp_all add: first_frame_def with_action_def STATE_INDEX_def NEXT_STATE_INDEX_def
      valid_standing_state)

lemma valid_later_frame:
  "valid_state (STATE_INDEX (with_action a later_frame))"
  "valid_state (NEXT_STATE_INDEX (with_action a later_frame))"
  by (simp_all add: later_frame_def with_action_def STATE_INDEX_def NEXT_STATE_INDEX_def
      valid_standing_state valid_round_over_state)

section \<open>The claims\<close>

subsection \<open>Claim C1\<close>

text \<open>
  Claim C1. One training pass over rows whose actions are valid indices, on an approximator
  that returns one value per action, makes one fit call per row of the shuffled data, which
  is a rearrangement of all the rows. For the row (s, a, r, done, s') at position i the
  fitted input is s and the fitted target row has, at the action's index, r when done is
  true and r + gamma * max(predict(s')) when it is false, and the prediction for s at every
  other index; both predictions are those of the model as the fit calls before position i
  have left it, not of the model the pass started with.
\<close>

theorem trainer_targets_follow_bellman:
  assumes "\<forall>m x. length (predict net m x) = actionSize ag"
    and "0 < actionSize ag"
    and "\<forall>row\<in>set data. valid_action (actionSize ag) (fst (snd row))"
  shows "\<exists>rows ag' m' calls.
           random_sample rng data (length data) = Inr rows \<and> mset rows = mset data \<and>
           trainNetwork net ag rng data m = Inr (ag', m', calls) \<and>
           length calls = length data \<and>
           (\<forall>i<length data.
              case rows ! i of (s, a, r, isDone, s') \<Rightarrow>
                let current = replay net m (take i calls);
                    target = snd (calls ! i);
                    k = action_index (actionSize ag) a
                in fst (calls ! i) = s \<and> length target = actionSize ag \<and>
                   target ! k = (if isDone then r
                                 else r + gamma ag * Max (set (predict net current s'))) \<and>
                   (\<forall>j<actionSize ag. j \<noteq> k \<longrightarrow> target ! j = predict net current s ! j))"
proof -
  let ?n = "actionSize ag"
  from trainNetwork_ok [OF assms, of rng m]
  obtain rows losses' m' calls where
    rs: "random_sample rng data (length data) = Inr rows" "mset rows = mset data"
    and t: "trainNetwork net ag rng data m =
      Inr (ag\<lparr>lossHistory := losses',
               epsilon := (if EPSILON_MIN < epsilon ag then epsilon ag * epsilonDecay ag
                           else epsilon ag)\<rparr>, m', calls)"
      "length calls = length data"
    and l: "\<forall>i<length data. calls ! i =
        expected_call net (gamma ag) ?n (replay net m (take i calls)) (rows ! i)"
    by blast
  have "case rows ! i of (s, a, r, isDone, s') \<Rightarrow>
                let current = replay net m (take i calls);
                    target = snd (calls ! i);
                    k = action_index ?n a
                in fst (calls ! i) = s \<and> length target = ?n \<and>
                   target ! k = (if isDone then r
                                 else r + gamma ag * Max (set (predict net current s'))) \<and>
                   (\<forall>j<?n. j \<noteq> k \<longrightarrow> target ! j = predict net current s ! j)"
    if "i < length data" for i
  proof -
    obtain s a r d s' where row: "rows ! i = (s, a, r, d, s')"
      by (cases "rows ! i") auto
    have k: "action_index ?n a < ?n"
      using assms(2) by (simp add: action_index_def nat_less_iff)
    from l that have "calls ! i =
        expected_call net (gamma ag) ?n (replay net m (take i calls)) (rows ! i)"
      by simp
    then show ?thesis
      using k assms(1) by (simp add: row expected_call_def spec_target_def Let_def)
  qed
  with rs t show ?thesis by blast
qed

theorem trainer_targets_follow_bellman_witness:
  "(\<forall>m x. length (predict table_net m x) = actionSize train_agent) \<and>
   0 < actionSize train_agent \<and> gamma train_agent = 98 / 100 \<and>
   list_all (\<lambda>row. valid_action (actionSize train_agent) (fst (snd row))) [row_b, row_a, row_c] \<and>
   random_sample one_zero_rng [row_b, row_a, row_c] (length [row_b, row_a, row_c])
     = Inr [row_a, row_b, row_c] \<and>
   (\<exists>ag' m'. trainNetwork table_net train_agent one_zero_rng [row_b, row_a, row_c] (0, 2, 1) =
      Inr (ag', m',
        [(feature_layout standing_state, [0, 296 / 100, 1]),
         (feature_layout standing_state, [29008 / 10000, 296 / 100, 1]),
         (feature_layout standing_state, [29008 / 10000, 296 / 100, 5])]))"
proof -
  have a: "actionSize train_agent = 3" "gamma train_agent = 98 / 100"
    by (simp_all add: train_agent_def DeepQAgent_init_def prepareForNextFight_def
        DEFAULT_DISCOUNT_RATE_def)
  have h1: "\<forall>m x. length (predict table_net m x) = actionSize train_agent"
    by (simp add: a table_net_def case_prod_beta)
  have h2: "0 < actionSize train_agent" by (simp add: a)
  have h3: "\<forall>row\<in>set [row_b, row_a, row_c]. valid_action (actionSize train_agent) (fst (snd row))"
    by (simp add: a valid_action_def row_a_def row_b_def row_c_def)
  have rs: "random_sample one_zero_rng [row_b, row_a, row_c] (length [row_b, row_a, row_c])
      = Inr [row_a, row_b, row_c]"
    by (simp add: random_sample_def Let_def one_zero_rng_def)
  have ev: "trainLoop table_net (98 / 100) 3 ((0, 2, 1), []) [row_a, row_b, row_c] =
      Inr (((29008 / 10000, 296 / 100, 5), [(296 / 100 - 2)\<^sup>2, (29008 / 10000)\<^sup>2, 16]),
        [(feature_layout standing_state, [0, 296 / 100, 1]),
         (feature_layout standing_state, [29008 / 10000, 296 / 100, 1]),
         (feature_layout standing_state, [29008 / 10000, 296 / 100, 5])])"
    by (simp add: trainStep_def row_a_def row_b_def row_c_def table_net_def numpy_amax_def
        list_setitem_def numpy_reshape_def bindE_def on_fit_end_def Let_def)
  have "trainNetwork table_net train_agent one_zero_rng [row_b, row_a, row_c] (0, 2, 1) =
      Inr (train_agent\<lparr>lossHistory := [(296 / 100 - 2)\<^sup>2, (29008 / 10000)\<^sup>2, 16],
             epsilon := (if EPSILON_MIN < epsilon train_agent
                         then epsilon train_agent * epsilonDecay train_agent
                         else epsilon train_agent)\<rparr>,
        (29008 / 10000, 296 / 100, 5),
        [(feature_layout standing_state, [0, 296 / 100, 1]),
         (feature_layout standing_state, [29008 / 10000, 296 / 100, 1]),
         (feature_layout standing_state, [29008 / 10000, 296 / 100, 5])])"
    unfolding trainNetwork_def rs bindE_Inr Let_def a losses_clear_def ev
    by (simp only: prod.case)
  then have tn: "\<exists>ag' m'. trainNetwork table_net train_agent one_zero_rng [row_b, row_a, row_c] (0, 2, 1) =
      Inr (ag', m',
        [(feature_layout standing_state, [0, 296 / 100, 1]),
         (feature_layout standing_state, [29008 / 10000, 296 / 100, 1]),
         (feature_layout standing_state, [29008 / 10000, 296 / 100, 5])])"
    by blast
  from trainer_targets_follow_bellman [OF h1 h2 h3, of one_zero_rng "(0, 2, 1)"] h1 h2 h3 rs tn a
  show ?thesis
    by (simp only: list_all_iff) blast
qed

subsection \<open>Claim C2\<close>

theorem encoder_unknown_status_counterexample:
  "map_of stateIndices 534 = None \<and> 534 \<notin> set doneKeys \<and>
   map_of unknown_status_state ''status'' = Some 534 \<and>
   prepareNetworkInputs 32 unknown_status_state = Inl KeyError"
  by (simp add: prepareNetworkInputs_def unknown_status_state_def bindE_def dict_getitem_def
      oneHotState_def list_setitem_def numpy_reshape_def stateIndices_def doneKeys_def)

text \<open>
  Claim C2, as amended. For every valid state mapping the encoder returns, and a status
  (or enemy_status) code that is one of the eight round-over codes of \<open>doneKeys\<close> gives an
  all-zero one-hot segment for that status. A status code that is neither a key of
  \<open>stateIndices\<close> nor in \<open>doneKeys\<close> makes the encoder raise.
\<close>

theorem encoder_done_status_all_zero:
  "(valid_state step \<longrightarrow>
      (\<exists>fv. prepareNetworkInputs 32 step = Inr fv \<and>
         (field step ''enemy_status'' \<in> set doneKeys \<longrightarrow> take 9 (drop 3 fv) = replicate 9 0) \<and>
         (field step ''status'' \<in> set doneKeys \<longrightarrow> drop 23 fv = replicate 9 0))) \<and>
   ((map_of step ''enemy_status'' = Some c \<or> map_of step ''status'' = Some c) \<and>
      \<not> encodable_status c \<longrightarrow> isl (prepareNetworkInputs n step))"
proof (intro conjI impI)
  assume "valid_state step"
  then have "prepareNetworkInputs 32 step = Inr (feature_layout step)"
    by (simp add: prepareNetworkInputs_eq_Inr)
  then show "\<exists>fv. prepareNetworkInputs 32 step = Inr fv \<and>
         (field step ''enemy_status'' \<in> set doneKeys \<longrightarrow> take 9 (drop 3 fv) = replicate 9 0) \<and>
         (field step ''status'' \<in> set doneKeys \<longrightarrow> drop 23 fv = replicate 9 0)"
    by (simp add: feature_layout_segments status_one_hot_done)
next
  assume a: "(map_of step ''enemy_status'' = Some c \<or> map_of step ''status'' = Some c) \<and>
      \<not> encodable_status c"
  show "isl (prepareNetworkInputs n step)"
  proof (cases "prepareNetworkInputs n step")
    case (Inl e)
    then show ?thesis by simp
  next
    case (Inr fv)
    then have "valid_state step" by (simp add: prepareNetworkInputs_eq_Inr)
    with a show ?thesis by (auto simp: valid_state_def field_def)
  qed
qed

theorem encoder_done_status_all_zero_witness:
  "valid_state round_over_state \<and>
   field round_over_state ''enemy_status'' = 528 \<and> field round_over_state ''status'' = 1024 \<and>
   (\<exists>fv. prepareNetworkInputs 32 round_over_state = Inr fv \<and>
      take 9 (drop 3 fv) = replicate 9 0 \<and> drop 23 fv = replicate 9 0) \<and>
   map_of unknown_status_state ''status'' = Some 534 \<and> \<not> encodable_status 534 \<and>
   isl (prepareNetworkInputs 32 unknown_status_state)"
proof -
  have f: "field round_over_state ''enemy_status'' = 528" "field round_over_state ''status'' = 1024"
    by (simp_all add: field_def round_over_state_def)
  have u: "map_of unknown_status_state ''status'' = Some 534" "\<not> encodable_status 534"
    by (simp_all add: unknown_status_state_def encodable_status_def stateIndices_def doneKeys_def)
  from encoder_done_status_all_zero [where step = round_over_state]
    encoder_done_status_all_zero [where step = unknown_status_state and c = 534 and n = 32]
    valid_round_over_state f u
  show ?thesis by (simp add: doneKeys_def)
qed

subsection \<open>Claim C3\<close>

text \<open>
  Claim C3, on the code. Starting from epsilon 1.0 with decay factor 0.999, after N
  training passes epsilon is 0.999 to the power min(N, 2302): the test
  \<open>epsilon > EPSILON_MIN\<close> is made before the multiplication, so pass 2302 takes epsilon
  from 0.999^2301, which is above 0.1, to 0.999^2302, which is below it, and only from
  then on do passes leave epsilon unchanged.
\<close>

theorem epsilon_after_passes:
  "trainPasses net ag passes = Inr ag' \<Longrightarrow> epsilon ag = 1 \<Longrightarrow> epsilonDecay ag = 999 / 1000 \<Longrightarrow>
   epsilon ag' = (999 / 1000) ^ min (length passes) 2302"
proof -
  assume a: "trainPasses net ag passes = Inr ag'" "epsilon ag = 1" "epsilonDecay ag = 999 / 1000"
  have b: "EPSILON_MIN < (999 / 1000) ^ 2301" "(999 / 1000) ^ 2302 < EPSILON_MIN"
    using decay_pow_bounds unfolding EPSILON_MIN_def by blast+
  have c: "(0::real) \<le> 999 / 1000" "(999 / 1000 :: real) \<le> 1" by simp_all
  have "epsilon ag = (999 / 1000) ^ min 0 2302" using a(2) by simp
  from trainPasses_epsilon [OF b c a(1) a(3) this] show ?thesis by simp
qed

theorem epsilon_after_passes_witness:
  "epsilon exploring_agent = 1 \<and> epsilonDecay exploring_agent = 999 / 1000 \<and>
   (\<exists>ag'. trainPasses table_net exploring_agent (replicate 2302 (zero_rng, [])) = Inr ag' \<and>
      epsilon ag' = (999 / 1000) ^ 2302 \<and> epsilon ag' < EPSILON_MIN \<and>
      epsilon ag' \<noteq> max (1 / 10) ((999 / 1000) ^ 2302))"
proof -
  have e: "epsilon exploring_agent = 1" "epsilonDecay exploring_agent = 999 / 1000"
    by (simp_all add: exploring_agent_def DeepQAgent_init_def prepareForNextFight_def
        DEFAULT_EPSILON_DECAY_def)
  obtain ag' where r: "trainPasses table_net exploring_agent (replicate 2302 (zero_rng, [])) = Inr ag'"
    using trainPasses_no_data_returns by blast
  define x :: real where "x = (999 / 1000) ^ 2302"
  have "min (length (replicate 2302 (zero_rng, [] :: sample list))) 2302 = 2302"
    by simp
  with epsilon_after_passes [OF r e] have v: "epsilon ag' = x"
    unfolding x_def by (simp only:)
  have "x < 1 / 10"
    using decay_pow_bounds unfolding x_def by blast
  with v have "epsilon ag' < EPSILON_MIN" "epsilon ag' \<noteq> max (1 / 10) x"
    by (simp_all add: EPSILON_MIN_def)
  with v e r show ?thesis unfolding x_def by blast
qed

subsection \<open>Claim C4\<close>

text \<open>
  Claim C4. Recording any sequence of frames into the empty buffer of an agent succeeds
  (the agent's \<open>lastAction\<close> being set), leaves at most 50,000 transitions in the buffer, and
  leaves exactly the most recently recorded ones, in the order of recording; and one more
  step recorded into a buffer that holds 50,000 transitions drops the oldest one and puts
  the new one last.
\<close>

theorem experience_buffer_bounded_fifo:
  "(lastAction ag = Some a \<and> memory ag = [] \<longrightarrow>
      (\<exists>ag'. recordSteps ag frames = Inr ag' \<and>
         length (memory ag') \<le> 50000 \<and>
         memory ag' = drop (length frames - 50000) (map (with_action a) frames))) \<and>
   (lastAction ag = Some a \<and> length (memory ag) = 50000 \<longrightarrow>
      recordStep ag obs st r obs' st' d =
        Inr (ag\<lparr>memory := tl (memory ag) @ [(obs, st, a, r, obs', st', d)]\<rparr>))"
proof (intro conjI impI)
  assume a: "lastAction ag = Some a \<and> memory ag = []"
  then have "recordSteps ag frames =
      Inr (ag\<lparr>memory := drop (length frames - MAX_DATA_LENGTH) (map (with_action a) frames)\<rparr>)"
    using foldl_deque_append [of MAX_DATA_LENGTH "map (with_action a) frames"]
    by (simp add: recordSteps_foldl)
  then show "\<exists>ag'. recordSteps ag frames = Inr ag' \<and> length (memory ag') \<le> 50000 \<and>
         memory ag' = drop (length frames - 50000) (map (with_action a) frames)"
    by (simp add: MAX_DATA_LENGTH_def)
next
  assume "lastAction ag = Some a \<and> length (memory ag) = 50000"
  then show "recordStep ag obs st r obs' st' d =
        Inr (ag\<lparr>memory := tl (memory ag) @ [(obs, st, a, r, obs', st', d)]\<rparr>)"
    by (simp add: recordStep_def MAX_DATA_LENGTH_def deque_append_full)
qed

theorem experience_buffer_bounded_fifo_witness:
  "lastAction stale_agent = Some 7 \<and> memory stale_agent = [] \<and>
   (\<exists>ag'. recordSteps stale_agent (first_frame # replicate 50000 later_frame) = Inr ag' \<and>
      length (memory ag') = 50000 \<and>
      memory ag' = replicate 50000 (with_action 7 later_frame)) \<and>
   length (memory (stale_agent\<lparr>memory := replicate 50000 (with_action 7 first_frame)\<rparr>)) = 50000 \<and>
   recordStep (stale_agent\<lparr>memory := replicate 50000 (with_action 7 first_frame)\<rparr>)
       () standing_state 0 () round_over_state True =
     Inr (stale_agent\<lparr>memory :=
       replicate 49999 (with_action 7 first_frame) @ [with_action 7 later_frame]\<rparr>)"
proof -
  have s: "lastAction stale_agent = Some 7" "memory stale_agent = []"
    by (simp_all add: stale_agent_def greedy_agent_def DeepQAgent_init_def prepareForNextFight_def)
  have t: "tl (replicate 50000 (with_action 7 first_frame)) = replicate 49999 (with_action 7 first_frame)"
    by (simp add: tl_replicate)
  from s t
    experience_buffer_bounded_fifo [where ag = stale_agent and a = 7
      and frames = "first_frame # replicate 50000 later_frame"]
    experience_buffer_bounded_fifo [where a = 7 and obs = "()" and st = standing_state and r = 0
      and obs' = "()" and st' = round_over_state and d = True
      and ag = "stale_agent\<lparr>memory := replicate 50000 (with_action 7 first_frame)\<rparr>"]
  show ?thesis
    by (auto simp: with_action_def later_frame_def)
qed

subsection \<open>Claim C5\<close>

theorem review_fit_count_counterexample:
  "reviewFight table_net recording_agent zero_rng empty_disk = Inl ZeroDivisionError \<and>
   (\<exists>agR ag' d' calls.
      recordSteps recording_agent (replicate 50001 first_frame) = Inr agR \<and>
      reviewFight table_net agR zero_rng empty_disk = Inr (ag', d', calls) \<and>
      memory ag' = [] \<and> length calls = 50000 \<and>
      length calls \<noteq> length (replicate 50001 first_frame))"
proof -
  have z: "reviewFight table_net recording_agent zero_rng empty_disk = Inl ZeroDivisionError"
    by (simp add: reviewFight_def prepareMemoryForTraining_def recording_agent_fields
        trainNetwork_no_data bindE_def saveModel_def Let_def)
  have h1: "\<forall>m x. length (predict table_net m x) = actionSize recording_agent"
    using table_net_shape by (simp add: recording_agent_fields)
  have h4: "valid_action (actionSize recording_agent) 1"
    by (simp add: recording_agent_fields valid_action_def)
  have h6: "replicate 50001 first_frame \<noteq> []" by simp
  have h7: "\<forall>frame\<in>set (replicate 50001 first_frame).
      valid_state (STATE_INDEX (with_action 1 frame)) \<and>
      valid_state (NEXT_STATE_INDEX (with_action 1 frame))"
    using valid_first_frame by simp
  from record_then_review
    [OF h1 recording_agent_fields(2,3) h4 recording_agent_fields(4) h6 h7, of zero_rng empty_disk]
  obtain agR ag' d' calls where
    r: "recordSteps recording_agent (replicate 50001 first_frame) = Inr agR"
      "reviewFight table_net agR zero_rng empty_disk = Inr (ag', d', calls)" "memory ag' = []"
      "length calls = min (length (replicate 50001 first_frame)) 50000"
    by blast
  from r(4) have "length calls = 50000" "length calls \<noteq> length (replicate 50001 first_frame)"
    by simp_all
  with z r(1,2,3) show ?thesis by blast
qed

text \<open>
  Claim C5, as amended. On an approximator that returns one value per action, whatever
  the random generator draws: the review of a non-empty buffer of valid steps shuffles
  the prepared rows with \<open>random.sample(data, len(data))\<close> into a rearrangement of all of
  them, makes exactly one fit call per buffered transition, the call at position i on the
  features of the shuffled row at position i, and leaves the buffer empty. Hence after k
  appends to the empty buffer, k at least 1, the review makes exactly min(k, 50000) fit
  calls, that is k of them when k is within the capacity of the buffer; the same holds
  for k frames recorded by \<open>recordStep\<close>.
\<close>

theorem review_fits_each_buffered_transition_once:
  assumes "\<forall>m x. length (predict net m x) = actionSize ag" "0 < actionSize ag"
    and "stateSize ag = 32"
  shows
    "(memory ag \<noteq> [] \<and> (\<forall>step\<in>set (memory ag). valid_step (actionSize ag) step) \<longrightarrow>
       (let data = map encoded_row (memory ag)
        in \<exists>rows ag' d' calls.
             random_sample rng data (length data) = Inr rows \<and> mset rows = mset data \<and>
             reviewFight net ag rng d = Inr (ag', d', calls) \<and> memory ag' = [] \<and>
             length calls = length (memory ag) \<and> map fst calls = map fst rows)) \<and>
     (steps \<noteq> [] \<and> (\<forall>step\<in>set steps. valid_step (actionSize ag) step) \<and>
        memory ag = foldl (deque_append MAX_DATA_LENGTH) [] steps \<longrightarrow>
       (\<exists>ag' d' calls. reviewFight net ag rng d = Inr (ag', d', calls) \<and> memory ag' = [] \<and>
          length calls = min (length steps) 50000 \<and>
          (length steps \<le> 50000 \<longrightarrow> length calls = length steps))) \<and>
     (lastAction ag = Some a \<and> valid_action (actionSize ag) a \<and> memory ag = [] \<and>
        frames \<noteq> [] \<and>
        (\<forall>frame\<in>set frames. valid_state (STATE_INDEX (with_action a frame)) \<and>
           valid_state (NEXT_STATE_INDEX (with_action a frame))) \<longrightarrow>
       (\<exists>agR ag' d' calls. recordSteps ag frames = Inr agR \<and>
          reviewFight net agR rng d = Inr (ag', d', calls) \<and> memory ag' = [] \<and>
          length calls = min (length frames) 50000 \<and>
          (length frames \<le> 50000 \<longrightarrow> length calls = length frames)))"
proof (intro conjI impI)
  assume b: "memory ag \<noteq> [] \<and> (\<forall>step\<in>set (memory ag). valid_step (actionSize ag) step)"
  then have steps: "\<forall>step\<in>set (memory ag). valid_state (STATE_INDEX step) \<and>
      valid_state (NEXT_STATE_INDEX step) \<and> valid_action (actionSize ag) (ACTION_INDEX step)"
    by (simp add: valid_step_def)
  from b have ne: "memory ag \<noteq> []" by simp
  from reviewFight_ok [OF assms ne steps, of rng d]
  show "let data = map encoded_row (memory ag)
        in \<exists>rows ag' d' calls.
             random_sample rng data (length data) = Inr rows \<and> mset rows = mset data \<and>
             reviewFight net ag rng d = Inr (ag', d', calls) \<and> memory ag' = [] \<and>
             length calls = length (memory ag) \<and> map fst calls = map fst rows"
    by (simp add: Let_def) blast
next
  assume c: "steps \<noteq> [] \<and> (\<forall>step\<in>set steps. valid_step (actionSize ag) step) \<and>
        memory ag = foldl (deque_append MAX_DATA_LENGTH) [] steps"
  then have c1: "steps \<noteq> []" and c2: "\<forall>step\<in>set steps. valid_step (actionSize ag) step"
    and c3: "memory ag = foldl (deque_append MAX_DATA_LENGTH) [] steps"
    by simp_all
  from review_after_appends [OF assms c1 c2 c3, of rng d]
  show "\<exists>ag' d' calls. reviewFight net ag rng d = Inr (ag', d', calls) \<and> memory ag' = [] \<and>
          length calls = min (length steps) 50000 \<and>
          (length steps \<le> 50000 \<longrightarrow> length calls = length steps)"
    by auto
next
  assume r: "lastAction ag = Some a \<and> valid_action (actionSize ag) a \<and> memory ag = [] \<and>
        frames \<noteq> [] \<and>
        (\<forall>frame\<in>set frames. valid_state (STATE_INDEX (with_action a frame)) \<and>
           valid_state (NEXT_STATE_INDEX (with_action a frame)))"
  then have r1: "lastAction ag = Some a" and r2: "valid_action (actionSize ag) a"
    and r3: "memory ag = []" and r4: "frames \<noteq> []"
    and r5: "\<forall>frame\<in>set frames. valid_state (STATE_INDEX (with_action a frame)) \<and>
           valid_state (NEXT_STATE_INDEX (with_action a frame))"
    by simp_all
  from record_then_review [OF assms(1,3) r1 r2 r3 r4 r5, of rng d]
  show "\<exists>agR ag' d' calls. recordSteps ag frames = Inr agR \<and>
          reviewFight net agR rng d = Inr (ag', d', calls) \<and> memory ag' = [] \<and>
          length calls = min (length frames) 50000 \<and>
          (length frames \<le> 50000 \<longrightarrow> length calls = length frames)"
    by auto
qed

lemma buffered_agent_fields:
  "actionSize buffered_agent = 3" "stateSize buffered_agent = 32"
  "memory buffered_agent = [((), standing_state, 1, 1, (), standing_state, False),
                            ((), standing_state, 0, 0, (), standing_state, False),
                            ((), standing_state, - 1, 5, (), round_over_state, True)]"
  by (simp_all add: buffered_agent_def recording_agent_fields)

theorem review_fits_each_buffered_transition_once_witness:
  "(\<forall>m x. length (predict table_net m x) = actionSize buffered_agent) \<and>
   0 < actionSize buffered_agent \<and> stateSize buffered_agent = 32 \<and>
   memory buffered_agent \<noteq> [] \<and>
   list_all (valid_step (actionSize buffered_agent)) (memory buffered_agent) \<and>
   memory buffered_agent = foldl (deque_append MAX_DATA_LENGTH) [] (memory buffered_agent) \<and>
   (\<exists>rows ag' d' calls.
      random_sample one_zero_rng (map encoded_row (memory buffered_agent))
          (length (map encoded_row (memory buffered_agent))) = Inr rows \<and>
      mset rows = mset (map encoded_row (memory buffered_agent)) \<and>
      reviewFight table_net buffered_agent one_zero_rng empty_disk = Inr (ag', d', calls) \<and>
      memory ag' = [] \<and> length calls = 3 \<and> map fst calls = map fst rows) \<and>
   (\<forall>m x. length (predict table_net m x) = actionSize recording_agent) \<and>
   0 < actionSize recording_agent \<and> stateSize recording_agent = 32 \<and>
   lastAction recording_agent = Some 1 \<and> valid_action (actionSize recording_agent) 1 \<and>
   memory recording_agent = [] \<and>
   list_all (\<lambda>frame. valid_state (STATE_INDEX (with_action 1 frame)) \<and>
       valid_state (NEXT_STATE_INDEX (with_action 1 frame))) [first_frame, first_frame, later_frame] \<and>
   (\<exists>agR ag' d' calls.
      recordSteps recording_agent [first_frame, first_frame, later_frame] = Inr agR \<and>
      reviewFight table_net agR one_zero_rng empty_disk = Inr (ag', d', calls) \<and>
      memory ag' = [] \<and> length calls = 3)"
proof -
  have b1: "\<forall>m x. length (predict table_net m x) = actionSize buffered_agent"
    using table_net_shape by (simp add: buffered_agent_fields)
  have b2: "0 < actionSize buffered_agent" "stateSize buffered_agent = 32"
    by (simp_all add: buffered_agent_fields)
  have b3: "memory buffered_agent \<noteq> []"
    by (simp add: buffered_agent_fields)
  have b4: "\<forall>step\<in>set (memory buffered_agent). valid_step (actionSize buffered_agent) step"
    using valid_standing_state valid_round_over_state
    by (simp add: buffered_agent_fields valid_step_def STATE_INDEX_def NEXT_STATE_INDEX_def
        ACTION_INDEX_def valid_action_def)
  have b5: "memory buffered_agent = foldl (deque_append MAX_DATA_LENGTH) [] (memory buffered_agent)"
    by (simp add: buffered_agent_fields deque_append_def MAX_DATA_LENGTH_def)
  have h1: "\<forall>m x. length (predict table_net m x) = actionSize recording_agent"
    using table_net_shape by (simp add: recording_agent_fields)
  have h2: "0 < actionSize recording_agent" by (simp add: recording_agent_fields)
  have h4: "valid_action (actionSize recording_agent) 1"
    by (simp add: recording_agent_fields valid_action_def)
  have h6: "[first_frame, first_frame, later_frame] \<noteq> []" by simp
  have h7: "\<forall>frame\<in>set [first_frame, first_frame, later_frame].
      valid_state (STATE_INDEX (with_action 1 frame)) \<and>
      valid_state (NEXT_STATE_INDEX (with_action 1 frame))"
    using valid_first_frame valid_later_frame by simp
  have len: "length (memory buffered_agent) = 3"
    by (simp add: buffered_agent_fields)
  from review_fits_each_buffered_transition_once
      [OF b1 b2, where rng = one_zero_rng and d = empty_disk
        and steps = "memory buffered_agent" and a = 1 and frames = "[]"] b3 b4 b5 len
  have A: "\<exists>rows ag' d' calls.
      random_sample one_zero_rng (map encoded_row (memory buffered_agent))
          (length (map encoded_row (memory buffered_agent))) = Inr rows \<and>
      mset rows = mset (map encoded_row (memory buffered_agent)) \<and>
      reviewFight table_net buffered_agent one_zero_rng empty_disk = Inr (ag', d', calls) \<and>
      memory ag' = [] \<and> length calls = 3 \<and> map fst calls = map fst rows"
    by (simp only: Let_def) auto
  have l3: "min (length [first_frame, first_frame, later_frame]) 50000 = 3"
    by simp
  from review_fits_each_buffered_transition_once
      [OF h1 h2 recording_agent_fields(2), where rng = one_zero_rng and d = empty_disk
        and a = 1 and frames = "[first_frame, first_frame, later_frame]" and steps = "[]"]
    recording_agent_fields(3,4) h4 h6 h7
  obtain agR ag' d' calls where
    B0: "recordSteps recording_agent [first_frame, first_frame, later_frame] = Inr agR"
      "reviewFight table_net agR one_zero_rng empty_disk = Inr (ag', d', calls)"
      "memory ag' = []"
      "length calls = min (length [first_frame, first_frame, later_frame]) 50000"
    by blast
  from B0(4) l3 have "length calls = 3" by (simp only:)
  with B0 have B: "\<exists>agR ag' d' calls.
      recordSteps recording_agent [first_frame, first_frame, later_frame] = Inr agR \<and>
      reviewFight table_net agR one_zero_rng empty_disk = Inr (ag', d', calls) \<and>
      memory ag' = [] \<and> length calls = 3"
    by blast
  from A B b1 b2 b3 b4 b5 h1 h2 h4 h7 recording_agent_fields show ?thesis
    by (simp only: list_all_iff) blast
qed

subsection \<open>Claim C6\<close>

text \<open>
  Claim C6. Whenever the feature encoder returns, its output has the configured length
  \<open>stateSize\<close> and is, in this order, enemy_health, enemy_x, enemy_y, the 9-element one-hot of
  the enemy status, the 8-element one-hot of the enemy character, health, x, y and the
  9-element one-hot of the player status; and for every valid state mapping the encoder of
  the default configuration (stateSize 32) does return, with 32 elements.
\<close>

theorem encoder_length_and_layout:
  "(prepareNetworkInputs n step = Inr fv \<longrightarrow> length fv = n \<and> fv = feature_layout step) \<and>
   (valid_state step \<longrightarrow>
      prepareNetworkInputs 32 step = Inr (feature_layout step) \<and>
      length (feature_layout step) = 32)"
  by (simp add: prepareNetworkInputs_eq_Inr length_feature_layout)

theorem encoder_length_and_layout_witness:
  "valid_state standing_state \<and>
   prepareNetworkInputs 32 standing_state =
     Inr [176, 300, 192,  0, 1, 0, 0, 0, 0, 0, 0, 0,  0, 0, 0, 1, 0, 0, 0, 0,
          150, 205, 192,  1, 0, 0, 0, 0, 0, 0, 0, 0] \<and>
   length [176, 300, 192,  0, 1, 0, 0, 0, 0, 0, 0, 0,  0, 0, 0, 1, 0, 0, 0, 0,
          150, 205, 192,  1, 0, 0, 0, 0, 0, 0, 0, (0::int)] = 32"
  using encoder_length_and_layout [of 32 standing_state "feature_layout standing_state"]
    valid_standing_state
  by (simp add: feature_layout_standing_state)

subsection \<open>Claim C7\<close>

theorem greedy_selection_zero_draw_counterexample:
  "epsilon greedy_agent = 0 \<and> (0::real) \<le> 0 \<and> (0::real) < 1 \<and>
   isActionableState standing_state = Inr True \<and>
   numpy_argmax (predict table_net (model greedy_agent) (feature_layout standing_state)) = Inr 1 \<and>
   DeepQAgent_getMove table_net 0 greedy_agent standing_state 0 = Inl TypeError"
  by (simp add: DeepQAgent_getMove_def isActionableState_def standing_state_def dict_getitem_def
      bindE_def greedy_agent_def DeepQAgent_init_def prepareForNextFight_def table_net_def
      numpy_argmax_def getRandomMove_def)

text \<open>
  Claim C7, as amended. With epsilon 0 and a random draw greater than 0, the selection on
  an actionable state returns the arg-max of the approximator's action-values for the
  encoded state: the first index that holds the maximum; the result is the same for every
  such draw. On a draw that is not greater than 0 the test \<open>rand \<le> epsilon\<close> holds: the
  approximator is not consulted, and the outcome of the call is the same for every
  approximator.
\<close>

theorem greedy_selection_is_first_argmax:
  assumes "epsilon ag = 0"
  shows
    "(0 < rand \<and> 0 < rand' \<and> isActionableState info = Inr True \<and>
        prepareNetworkInputs (stateSize ag) info = Inr x \<and>
        predict net (model ag) x = q \<and> q \<noteq> [] \<longrightarrow>
      (\<exists>k. DeepQAgent_getMove net NO_MOVE ag info rand = Inr (ag, int k, [x]) \<and>
           DeepQAgent_getMove net NO_MOVE ag info rand' = Inr (ag, int k, [x]) \<and>
           k < length q \<and> q ! k = Max (set q) \<and> (\<forall>j<k. q ! j < q ! k))) \<and>
     (draw \<le> 0 \<longrightarrow>
        DeepQAgent_getMove other NO_MOVE ag info draw = DeepQAgent_getMove net NO_MOVE ag info draw \<and>
        (\<forall>agR mv qs. DeepQAgent_getMove net NO_MOVE ag info draw = Inr (agR, mv, qs) \<longrightarrow> qs = []))"
proof (intro conjI impI)
  assume a: "0 < rand \<and> 0 < rand' \<and> isActionableState info = Inr True \<and>
        prepareNetworkInputs (stateSize ag) info = Inr x \<and>
        predict net (model ag) x = q \<and> q \<noteq> []"
  then have ne: "q \<noteq> []" by simp
  from numpy_argmax_first_max [OF ne] obtain k where
    k: "numpy_argmax q = Inr k" "k < length q" "q ! k = Max (set q)" "\<forall>j<k. q ! j < q ! k"
    by blast
  have "DeepQAgent_getMove net NO_MOVE ag info u = Inr (ag, int k, [x])" if "0 < u" for u
    using that a assms k(1) by (simp add: DeepQAgent_getMove_def bindE_def)
  with a k show "\<exists>k. DeepQAgent_getMove net NO_MOVE ag info rand = Inr (ag, int k, [x]) \<and>
           DeepQAgent_getMove net NO_MOVE ag info rand' = Inr (ag, int k, [x]) \<and>
           k < length q \<and> q ! k = Max (set q) \<and> (\<forall>j<k. q ! j < q ! k)"
    by blast
next
  assume "draw \<le> 0"
  with assms show "DeepQAgent_getMove other NO_MOVE ag info draw
      = DeepQAgent_getMove net NO_MOVE ag info draw"
    by (simp add: DeepQAgent_getMove_def)
next
  assume "draw \<le> 0"
  with assms show "\<forall>agR mv qs.
      DeepQAgent_getMove net NO_MOVE ag info draw = Inr (agR, mv, qs) \<longrightarrow> qs = []"
    by (auto simp: DeepQAgent_getMove_def bindE_eq_Inr split: if_splits)
qed

theorem greedy_selection_is_first_argmax_witness:
  "epsilon greedy_agent = 0 \<and> isActionableState standing_state = Inr True \<and>
   prepareNetworkInputs (stateSize greedy_agent) standing_state = Inr (feature_layout standing_state) \<and>
   predict table_net (model greedy_agent) (feature_layout standing_state) = [1 / 2, 2, 2] \<and>
   DeepQAgent_getMove table_net 0 greedy_agent standing_state (1 / 2)
     = Inr (greedy_agent, 1, [feature_layout standing_state]) \<and>
   DeepQAgent_getMove table_net 0 greedy_agent standing_state (9 / 10)
     = Inr (greedy_agent, 1, [feature_layout standing_state]) \<and>
   (0::real) \<le> 0 \<and>
   DeepQAgent_getMove constant_net 0 greedy_agent standing_state 0
     = DeepQAgent_getMove table_net 0 greedy_agent standing_state 0"
proof -
  have e: "epsilon greedy_agent = 0" "stateSize greedy_agent = 32"
    "model greedy_agent = (1 / 2, 2, 2)"
    by (simp_all add: greedy_agent_def DeepQAgent_init_def prepareForNextFight_def)
  have i: "isActionableState standing_state = Inr True"
    by (simp add: isActionableState_def standing_state_def dict_getitem_def bindE_def)
  have p: "prepareNetworkInputs (stateSize greedy_agent) standing_state
      = Inr (feature_layout standing_state)"
    using valid_standing_state by (simp add: e prepareNetworkInputs_eq_Inr)
  have q: "predict table_net (model greedy_agent) (feature_layout standing_state) = [1 / 2, 2, 2]"
    by (simp add: table_net_def e)
  have r: "(0::real) < 1 / 2" "(0::real) < 9 / 10" and ne: "[1 / 2, 2, 2 :: real] \<noteq> []"
    and z: "(0::real) \<le> 0"
    by simp_all
  note t = greedy_selection_is_first_argmax [OF e(1), where net = table_net and NO_MOVE = 0
      and info = standing_state and rand = "1 / 2" and rand' = "9 / 10"
      and x = "feature_layout standing_state" and q = "[1 / 2, 2, 2]"
      and draw = 0 and other = constant_net]
  from t r i p q ne
  obtain k where k: "DeepQAgent_getMove table_net 0 greedy_agent standing_state (1 / 2)
        = Inr (greedy_agent, int k, [feature_layout standing_state])"
      "DeepQAgent_getMove table_net 0 greedy_agent standing_state (9 / 10)
        = Inr (greedy_agent, int k, [feature_layout standing_state])"
      "k < length [1 / 2, 2, 2 :: real]" "[1 / 2, 2, 2 :: real] ! k = Max (set [1 / 2, 2, 2])"
      "\<forall>j<k. [1 / 2, 2, 2 :: real] ! j < [1 / 2, 2, 2] ! k"
    by blast
  from t z have o: "DeepQAgent_getMove constant_net 0 greedy_agent standing_state 0
     = DeepQAgent_getMove table_net 0 greedy_agent standing_state 0"
    by blast
  from k(3) have "k = 0 \<or> k = 1 \<or> k = 2" by auto
  moreover have "k \<noteq> 0"
  proof
    assume "k = 0"
    with k(4) show False by simp
  qed
  moreover have "k \<noteq> 2" using k(5) [rule_format, of 1] by auto
  ultimately have "k = 1" by blast
  with k(1,2) e i p q o show ?thesis by simp
qed

subsection \<open>Claim C8\<close>

text \<open>
  Claim C8. When the telemetry holds the lockout value 39208 in \<open>round_timer\<close>, action
  selection returns the no-op action whatever the exploration rate, the random draw and
  the approximator are, and \<open>model.predict\<close> is not called.
\<close>

theorem lockout_returns_no_move:
  "map_of info ''round_timer'' = Some 39208 \<Longrightarrow>
   DeepQAgent_getMove net NO_MOVE ag info rand = Inr (ag, NO_MOVE, [])"
  by (simp add: DeepQAgent_getMove_def isActionableState_def dict_getitem_def bindE_def)

theorem lockout_returns_no_move_witness:
  "map_of locked_state ''round_timer'' = Some 39208 \<and>
   DeepQAgent_getMove table_net 0 greedy_agent locked_state (9 / 10) = Inr (greedy_agent, 0, [])"
proof -
  have h: "map_of locked_state ''round_timer'' = Some 39208"
    by (simp add: locked_state_def)
  from h lockout_returns_no_move [OF h] show ?thesis by simp
qed

subsection \<open>Claim C9\<close>

text \<open>
  Claim C9. A transition appended by \<open>recordStep\<close> carries the value that the attribute
  \<open>lastAction\<close> holds at that moment. \<open>DeepQAgent.getMove\<close> assigns no attribute, so after it
  \<open>recordStep\<close> records what it would have recorded before, whatever move was returned;
  the base agent's \<open>getMove\<close> does assign \<open>lastAction\<close>. On a freshly constructed Q-learning
  agent \<open>recordStep\<close> raises AttributeError, also after a \<open>getMove\<close>.
\<close>

theorem recordStep_stores_lastAction:
  "(recordStep ag obs st r obs' st' d = Inr ag' \<longrightarrow>
      (\<exists>a. lastAction ag = Some a \<and> memory ag' \<noteq> [] \<and>
           last (memory ag') = (obs, st, a, r, obs', st', d))) \<and>
   (DeepQAgent_getMove net NO_MOVE ag info rand = Inr (agA, move, queries) \<longrightarrow>
      lastAction agA = lastAction ag \<and>
      recordStep agA obs st r obs' st' d = recordStep ag obs st r obs' st' d) \<and>
   lastAction (fst (Agent_getMove ag sample)) = Some sample \<and>
   recordStep (DeepQAgent_init n k load eps nm mInit) obs st r obs' st' d = Inl AttributeError \<and>
   (DeepQAgent_getMove net NO_MOVE (DeepQAgent_init n k load eps nm mInit) info rand
        = Inr (agB, moveB, queriesB) \<longrightarrow>
      recordStep agB obs st r obs' st' d = Inl AttributeError)"
proof -
  have g: "agA = agX"
    if "DeepQAgent_getMove net NO_MOVE agX info rand = Inr (agA, mv, qs)"
    for agX agA :: "('a, 'b) agent" and mv qs
    using that
    by (auto simp: DeepQAgent_getMove_def bindE_eq_Inr split: if_splits)
  have fresh: "recordStep (DeepQAgent_init n k load eps nm mInit) obs st r obs' st' d = Inl AttributeError"
    by (simp add: recordStep_def DeepQAgent_init_def prepareForNextFight_def)
  have rec: "\<exists>a. lastAction ag = Some a \<and> memory ag' \<noteq> [] \<and>
           last (memory ag') = (obs, st, a, r, obs', st', d)"
    if "recordStep ag obs st r obs' st' d = Inr ag'"
    using that deque_append_last [of MAX_DATA_LENGTH "memory ag"]
    by (auto simp: recordStep_def MAX_DATA_LENGTH_def split: option.splits)
  show ?thesis
    using g fresh rec by (auto simp: Agent_getMove_def Let_def)
qed

theorem recordStep_stores_lastAction_witness:
  "DeepQAgent_getMove table_net 0 stale_agent standing_state (1 / 2)
     = Inr (stale_agent, 1, [feature_layout standing_state]) \<and>
   recordStep stale_agent () standing_state 1 () standing_state False
     = Inr (stale_agent\<lparr>memory := [((), standing_state, 7, 1, (), standing_state, False)]\<rparr>) \<and>
   lastAction stale_agent = Some 7 \<and>
   last (memory (stale_agent\<lparr>memory := [((), standing_state, 7, 1, (), standing_state, False)]\<rparr>))
     = ((), standing_state, 7, 1, (), standing_state, False) \<and>
   recordStep greedy_agent () standing_state 1 () standing_state False = Inl AttributeError"
proof -
  have p: "prepareNetworkInputs 32 standing_state = Inr (feature_layout standing_state)"
    using valid_standing_state by (simp add: prepareNetworkInputs_eq_Inr)
  have m: "DeepQAgent_getMove table_net 0 stale_agent standing_state (1 / 2)
     = Inr (stale_agent, 1, [feature_layout standing_state])"
    by (simp add: DeepQAgent_getMove_def isActionableState_def dict_getitem_def bindE_def
        standing_state_def [THEN arg_cong, of "\<lambda>s. map_of s ''round_timer''"]
        stale_agent_def greedy_agent_def DeepQAgent_init_def prepareForNextFight_def p
        table_net_def numpy_argmax_def)
  have r: "recordStep stale_agent () standing_state 1 () standing_state False
     = Inr (stale_agent\<lparr>memory := [((), standing_state, 7, 1, (), standing_state, False)]\<rparr>)"
    by (simp add: recordStep_def stale_agent_def greedy_agent_def DeepQAgent_init_def
        prepareForNextFight_def deque_append_def MAX_DATA_LENGTH_def)
  from m r
    recordStep_stores_lastAction [where ag = stale_agent and net = table_net and NO_MOVE = 0
      and info = standing_state and rand = "1 / 2" and agA = stale_agent
      and move = 1 and queries = "[feature_layout standing_state]"
      and obs = "()" and st = standing_state and r = 1 and obs' = "()" and st' = standing_state
      and d = False and n = 32 and k = 3 and load = False and eps = 0 and nm = None
      and mInit = "(1 / 2, 2, 2)"
      and ag' = "stale_agent\<lparr>memory := [((), standing_state, 7, 1, (), standing_state, False)]\<rparr>"]
  show ?thesis
    by (auto simp: greedy_agent_def)
qed

subsection \<open>Claim C10\<close>

text \<open>
  Claim C10. \<open>saveModel\<close> writes to the agent's log the sum of the recorded losses divided
  by their number when there is at least one; with an empty loss history it raises
  ZeroDivisionError, and so does the whole review of an empty buffer, whose training pass
  makes no fitting step.
\<close>

theorem saveModel_mean_loss_or_zero_division:
  "(lossHistory ag \<noteq> [] \<longrightarrow>
      (\<exists>d'. saveModel ag d = Inr d' \<and>
         logs d' (path_join DEFAULT_LOGS_DIR_PATH (getLogsName ag)) =
           logs d (path_join DEFAULT_LOGS_DIR_PATH (getLogsName ag))
             @ [sum_list (lossHistory ag) / real (length (lossHistory ag))])) \<and>
   (lossHistory ag = [] \<longrightarrow> saveModel ag d = Inl ZeroDivisionError) \<and>
   (memory ag = [] \<longrightarrow> reviewFight net ag rng d = Inl ZeroDivisionError)"
proof (intro conjI impI)
  assume "lossHistory ag \<noteq> []"
  then show "\<exists>d'. saveModel ag d = Inr d' \<and>
         logs d' (path_join DEFAULT_LOGS_DIR_PATH (getLogsName ag)) =
           logs d (path_join DEFAULT_LOGS_DIR_PATH (getLogsName ag))
             @ [sum_list (lossHistory ag) / real (length (lossHistory ag))]"
    by (simp add: saveModel_def Let_def)
next
  assume "lossHistory ag = []"
  then show "saveModel ag d = Inl ZeroDivisionError"
    by (simp add: saveModel_def Let_def)
next
  assume "memory ag = []"
  then show "reviewFight net ag rng d = Inl ZeroDivisionError"
    by (simp add: reviewFight_def prepareMemoryForTraining_def trainNetwork_no_data bindE_def
        saveModel_def Let_def)
qed

theorem saveModel_mean_loss_or_zero_division_witness:
  "lossHistory trained_agent = [1 / 2, 1 / 4, 3 / 4] \<and>
   (\<exists>d'. saveModel trained_agent empty_disk = Inr d' \<and>
      logs d' ''../logs/DeepQAgentLogs'' = [1 / 2]) \<and>
   lossHistory greedy_agent = [] \<and> memory greedy_agent = [] \<and>
   saveModel greedy_agent empty_disk = Inl ZeroDivisionError \<and>
   reviewFight table_net greedy_agent zero_rng empty_disk = Inl ZeroDivisionError"
proof -
  have a: "lossHistory trained_agent = [1 / 2, 1 / 4, 3 / 4]"
    "lossHistory greedy_agent = []" "memory greedy_agent = []"
    by (simp_all add: trained_agent_def greedy_agent_def DeepQAgent_init_def prepareForNextFight_def)
  have p: "path_join DEFAULT_LOGS_DIR_PATH (getLogsName trained_agent) = ''../logs/DeepQAgentLogs''"
    by (simp add: path_join_def DEFAULT_LOGS_DIR_PATH_def getLogsName_def trained_agent_def
        greedy_agent_def DeepQAgent_init_def prepareForNextFight_def)
  from a p
    saveModel_mean_loss_or_zero_division [where ag = trained_agent and d = empty_disk]
    saveModel_mean_loss_or_zero_division [where ag = greedy_agent and d = empty_disk
      and net = table_net and rng = zero_rng]
  show ?thesis
    by (auto simp: empty_disk_def)
qed

end
